theory Spec2Isabelle
  imports Main "HOL-Library.Sublist"
begin

section \<open>go-audio2org: a shallow embedding of main.go\<close>

text \<open>
  The program is a linear script: parse flags, load the environment, read a file, post it
  to a transcription endpoint, write the text, and optionally post a prompt to a
  completion endpoint and write the notes. Go strings are byte sequences and are modelled
  as \<^typ>\<open>string\<close> (a list of 8-bit characters). Everything the program does to the outside
  (log lines, file operations, HTTP requests) is recorded as a trace of events; the answers
  of the outside world are parameters collected in a record.
\<close>

subsection \<open>How a run ends\<close>

text \<open>
  \<open>log.Fatal\<close> and \<open>log.Fatalf\<close> print one line and call \<open>os.Exit(1)\<close>. A runtime panic
  (an index or a slice bound out of range) is not logged by the program: the Go runtime
  prints the panic and the process ends with status 2. Returning from \<open>main\<close> is status 0.
\<close>

datatype exit =
    Exit nat
  | Panic string

subsection \<open>The standard library functions the program calls (Unix)\<close>

text \<open>
  These functions belong to the Go standard library, not to the repository. They are
  written after the library's implementation for Unix: the separator is \<open>/\<close> and there
  are no volume names.
\<close>

abbreviation IsPathSeparator :: "char \<Rightarrow> bool" where
  "IsPathSeparator c \<equiv> c = CHR ''/''"

text \<open>
  \<open>filepath.Ext\<close>: scan from the end while the byte is not a separator; at the first dot
  return the suffix starting there. The second argument is the number of bytes not yet
  looked at, so \<open>Suc i\<close> is the loop at index \<open>i\<close>.
\<close>

fun ext_scan :: "string \<Rightarrow> nat \<Rightarrow> string" where
  "ext_scan path 0 = []"
| "ext_scan path (Suc i) =
     (if IsPathSeparator (path ! i) then []
      else if path ! i = CHR ''.'' then drop i path
      else ext_scan path i)"

definition filepath_Ext :: "string \<Rightarrow> string" where
  "filepath_Ext path = ext_scan path (length path)"

text \<open>
  The index of the last separator, \<open>-1\<close> when there is none: the loop
  \<open>i := len(path) - 1; for i >= 0 && !os.IsPathSeparator(path[i]) { i-- }\<close> shared by
  \<open>filepath.Base\<close> and \<open>filepath.Dir\<close>.
\<close>

fun last_sep :: "string \<Rightarrow> nat \<Rightarrow> int" where
  "last_sep path 0 = - 1"
| "last_sep path (Suc i) = (if IsPathSeparator (path ! i) then int i else last_sep path i)"

text \<open>\<open>filepath.Base\<close>: the last element of the path, trailing separators removed first.\<close>

fun strip_trailing :: "string \<Rightarrow> nat \<Rightarrow> string" where
  "strip_trailing path 0 = []"
| "strip_trailing path (Suc n) =
     (if IsPathSeparator (path ! n) then strip_trailing path n else take (Suc n) path)"

definition filepath_Base :: "string \<Rightarrow> string" where
  "filepath_Base path =
     (if path = [] then ''.''
      else
        let p1 = strip_trailing path (length path);
            i = last_sep p1 (length p1);
            p2 = (if 0 \<le> i then drop (nat (i + 1)) p1 else p1)
        in if p2 = [] then ''/'' else p2)"

text \<open>
  \<open>filepath.Clean\<close>, the loop over the path with the output buffer \<open>out\<close> (its length is
  the write index \<open>w\<close>) and the index \<open>dotdot\<close> below which a \<open>..\<close> may not remove anything.
  \<open>backtrack\<close> is the inner loop of the \<open>..\<close> case: it moves \<open>w\<close> back to the last separator.
\<close>

fun backtrack :: "string \<Rightarrow> nat \<Rightarrow> nat \<Rightarrow> nat" where
  "backtrack out dotdot 0 = 0"
| "backtrack out dotdot (Suc w) =
     (if dotdot < Suc w \<and> \<not> IsPathSeparator (out ! Suc w) then backtrack out dotdot w
      else Suc w)"

function clean_loop :: "bool \<Rightarrow> string \<Rightarrow> string \<Rightarrow> nat \<Rightarrow> string" where
  "clean_loop rooted [] out dotdot = out"
| "clean_loop rooted (c # cs) out dotdot =
     (if IsPathSeparator c then clean_loop rooted cs out dotdot
      else if c = CHR ''.'' \<and> (cs = [] \<or> IsPathSeparator (hd cs)) then
        clean_loop rooted cs out dotdot
      else if c = CHR ''.'' \<and> hd cs = CHR ''.'' \<and> (tl cs = [] \<or> IsPathSeparator (hd (tl cs))) then
        (if dotdot < length out then
           clean_loop rooted (tl cs) (take (backtrack out dotdot (length out - 1)) out) dotdot
         else if \<not> rooted then
           (let out' = (if 0 < length out then out @ ''/'' else out) @ ''..''
            in clean_loop rooted (tl cs) out' (length out'))
         else clean_loop rooted (tl cs) out dotdot)
      else
        (let out' = (if rooted \<and> length out \<noteq> 1 \<or> \<not> rooted \<and> length out \<noteq> 0
                     then out @ ''/'' else out)
         in clean_loop rooted (dropWhile (\<lambda>x. \<not> IsPathSeparator x) (c # cs))
              (out' @ takeWhile (\<lambda>x. \<not> IsPathSeparator x) (c # cs)) dotdot))"
  by pat_completeness auto
termination
  by (relation "measure (\<lambda>(rooted, path, out, dotdot). length path)")
     (auto simp: less_Suc_eq_le length_dropWhile_le)

declare clean_loop.simps [simp del]

text \<open>The separator the loop writes before copying an element.\<close>

definition add_sep :: "bool \<Rightarrow> string \<Rightarrow> string" where
  "add_sep rooted out =
     (if rooted \<and> length out \<noteq> 1 \<or> \<not> rooted \<and> length out \<noteq> 0 then out @ ''/'' else out)"

definition filepath_Clean :: "string \<Rightarrow> string" where
  "filepath_Clean path =
     (if path = [] then ''.''
      else
        let rooted = IsPathSeparator (hd path);
            out = (if rooted then clean_loop True (tl path) ''/'' 1
                   else clean_loop False path [] 0)
        in if out = [] then ''.'' else out)"

text \<open>\<open>strings.Join\<close> and \<open>filepath.Join\<close>: drop leading empty elements, join, clean.\<close>

fun strings_Join :: "string list \<Rightarrow> string \<Rightarrow> string" where
  "strings_Join [] sep = []"
| "strings_Join [e] sep = e"
| "strings_Join (e # es) sep = e @ sep @ strings_Join es sep"

fun filepath_Join :: "string list \<Rightarrow> string" where
  "filepath_Join [] = []"
| "filepath_Join (e # es) =
     (if e \<noteq> [] then filepath_Clean (strings_Join (e # es) ''/'') else filepath_Join es)"

text \<open>\<open>filepath.Dir\<close>: everything up to the last separator, cleaned.\<close>

definition filepath_Dir :: "string \<Rightarrow> string" where
  "filepath_Dir path = filepath_Clean (take (nat (last_sep path (length path) + 1)) path)"

text \<open>\<open>strings.TrimSuffix\<close>.\<close>

definition strings_HasSuffix :: "string \<Rightarrow> string \<Rightarrow> bool" where
  "strings_HasSuffix s suf =
     (length suf \<le> length s \<and> drop (length s - length suf) s = suf)"

definition strings_TrimSuffix :: "string \<Rightarrow> string \<Rightarrow> string" where
  "strings_TrimSuffix s suf =
     (if strings_HasSuffix s suf then take (length s - length suf) s else s)"

text \<open>
  \<open>fmt.Sprintf\<close> for string operands and the verbs \<open>%s\<close> and \<open>%v\<close> written directly after
  the percent sign, which is all the program uses. A verb with no operand left prints
  \<open>%!s(MISSING)\<close>, operands left over print \<open>%!(EXTRA string=...)\<close>, another verb letter
  prints \<open>%!c(string=...)\<close>.
\<close>

fun fmt_extra :: "string list \<Rightarrow> string" where
  "fmt_extra [] = []"
| "fmt_extra [a] = ''string='' @ a"
| "fmt_extra (a # as) = ''string='' @ a @ '', '' @ fmt_extra as"

fun doPrintf :: "string \<Rightarrow> string list \<Rightarrow> string" where
  "doPrintf [] args = (if args = [] then [] else ''%!(EXTRA '' @ fmt_extra args @ '')'')"
| "doPrintf [c] args =
     (if c = CHR ''%'' then ''%!(NOVERB)'' else [c]) @ doPrintf [] args"
| "doPrintf (c # v # fs) args =
     (if c \<noteq> CHR ''%'' then c # doPrintf (v # fs) args
      else if v = CHR ''%'' then CHR ''%'' # doPrintf fs args
      else case args of
          [] \<Rightarrow> ''%!'' @ [v] @ ''(MISSING)'' @ doPrintf fs []
        | a # as \<Rightarrow>
            (if v = CHR ''s'' \<or> v = CHR ''v'' then a
             else ''%!'' @ [v] @ ''(string='' @ a @ '')'') @ doPrintf fs as)"

definition fmt_Sprintf :: "string \<Rightarrow> string list \<Rightarrow> string" where
  "fmt_Sprintf format args = doPrintf format args"

text \<open>
  \<open>time.Now().Format("20060102_150405")\<close>. The instant is the local wall-clock reading;
  each field is printed in decimal, padded with zeros to its width (4 for the year, 2 for
  the others).
\<close>

record Time =
  Year :: nat
  Month :: nat
  Day :: nat
  Hour :: nat
  Minute :: nat
  Second :: nat

fun decimal :: "nat \<Rightarrow> string" where
  "decimal n =
     (if n < 10 then [''0123456789'' ! n]
      else decimal (n div 10) @ [''0123456789'' ! (n mod 10)])"

declare decimal.simps [simp del]

definition appendInt :: "nat \<Rightarrow> nat \<Rightarrow> string" where
  "appendInt x width = replicate (width - length (decimal x)) CHR ''0'' @ decimal x"

definition Format_20060102_150405 :: "Time \<Rightarrow> string" where
  "Format_20060102_150405 t =
     appendInt (Year t) 4 @ appendInt (Month t) 2 @ appendInt (Day t) 2 @ ''_'' @
     appendInt (Hour t) 2 @ appendInt (Minute t) 2 @ appendInt (Second t) 2"

subsection \<open>Output paths\<close>

text \<open>The slice expression \<open>s[:hi]\<close>: it panics when \<open>hi\<close> is out of range.\<close>

definition slice_to :: "string \<Rightarrow> int \<Rightarrow> exit + string" where
  "slice_to s hi =
     (if hi < 0 \<or> int (length s) < hi then Inl (Panic ''slice bounds out of range'')
      else Inr (take (nat hi) s))"

text \<open>\<open>generateTimestampedFilePath\<close>, with the reading of the clock as an argument.\<close>

definition generateTimestampedFilePath :: "Time \<Rightarrow> string \<Rightarrow> string \<Rightarrow> exit + string" where
  "generateTimestampedFilePath now outputDir baseFileName =
     (let timestamp = Format_20060102_150405 now;
          ext = filepath_Ext baseFileName
      in case slice_to baseFileName (int (length baseFileName) - int (length ext)) of
           Inl e \<Rightarrow> Inl e
         | Inr name \<Rightarrow>
             Inr (filepath_Join [outputDir, fmt_Sprintf ''%s_%s%s'' [name, timestamp, ext]]))"

text \<open>\<open>generateOrgFilePath\<close>.\<close>

definition generateOrgFilePath :: "string \<Rightarrow> string" where
  "generateOrgFilePath baseFilePath =
     (let dir = filepath_Dir baseFilePath;
          baseName = strings_TrimSuffix (filepath_Base baseFilePath) (filepath_Ext baseFilePath);
          orgFileName = fmt_Sprintf ''%s_emacs_org_notes.org'' [baseName]
      in filepath_Join [dir, orgFileName])"

subsection \<open>Configuration and decoded responses\<close>

record Config =
  AudioFilePath :: string
  TranscriptionFilePath :: string
  OutputFileName :: string
  PostProcessCmd :: string
  OpenAIAPIKey :: string

record TranscriptionResponse =
  Text :: string

record Message =
  Content :: string

record Choice =
  Message :: Message

record OpenAIResponse =
  Choices :: "Choice list"

subsection \<open>The outside world\<close>

text \<open>
  A request as the program builds it with resty: the client timeout in minutes, the URL,
  the headers it sets, and the payload (a multipart upload for the transcription endpoint,
  a JSON object for the completion endpoint). Numbers of the JSON body are kept as their
  literals.
\<close>

datatype json =
    JString string
  | JNumber string
  | JArray "json list"
  | JObject "(string \<times> json) list"

datatype payload =
    Multipart string string string "(string \<times> string) list"
  | JSONBody json

record request =
  timeout_minutes :: nat
  url :: string
  headers :: "(string \<times> string) list"
  body :: payload

text \<open>
  A response as the program looks at it: \<open>resp.IsError()\<close>, \<open>resp.Body()\<close>, and the two
  renderings it prints on an error status, \<open>resp.String()\<close> and \<open>resp.Error()\<close> under \<open>%v\<close>.
\<close>

record response =
  IsError :: bool
  Body :: string
  String_of :: string
  Error_of :: string

datatype event =
    Log string
  | LoadDotenv
  | ReadFile string
  | Stat string
  | Mkdir string
  | WriteFile string string
  | Post request

text \<open>
  The answers of the environment. An error is the text of \<open>err.Error()\<close>, on the left of a
  sum or in an option. \<open>environ\<close> is the process environment at start; \<open>dotenv\<close> is what
  \<open>godotenv.Load()\<close> parses from the file \<open>.env\<close>, each variable once (or the error it
  returns); \<open>now\<close> is the clock. The two JSON decoders are \<open>json.Unmarshal\<close> into the two
  response structs.
\<close>

record world =
  environ :: "(string \<times> string) list"
  dotenv :: "string + (string \<times> string) list"
  read_file :: "string \<Rightarrow> string + string"
  stat_not_exist :: "string \<Rightarrow> bool"
  mkdir :: "string \<Rightarrow> string option"
  write_file :: "string \<Rightarrow> string \<Rightarrow> string option"
  http_post :: "request \<Rightarrow> string + response"
  unmarshal_transcription :: "string \<Rightarrow> string + TranscriptionResponse"
  unmarshal_openai :: "string \<Rightarrow> string + OpenAIResponse"
  now :: Time

subsection \<open>Sequencing\<close>

text \<open>
  A computation yields the events it performed and either the way the process ended or a
  value. \<open>bind\<close> runs the second computation only when the first returned.
\<close>

type_synonym 'a io = "event list \<times> (exit + 'a)"

definition ret :: "'a \<Rightarrow> 'a io" where
  "ret x = ([], Inr x)"

definition bind :: "'a io \<Rightarrow> ('a \<Rightarrow> 'b io) \<Rightarrow> 'b io" where
  "bind m f =
     (case m of
        (t, Inl e) \<Rightarrow> (t, Inl e)
      | (t, Inr x) \<Rightarrow> (case f x of (t', r) \<Rightarrow> (t @ t', r)))"

definition emit :: "event \<Rightarrow> unit io" where
  "emit e = ([e], Inr ())"

definition lift :: "exit + 'a \<Rightarrow> 'a io" where
  "lift r = ([], r)"

definition log_Println :: "string \<Rightarrow> unit io" where
  "log_Println msg = emit (Log msg)"

definition log_Printf :: "string \<Rightarrow> string list \<Rightarrow> unit io" where
  "log_Printf format args = emit (Log (fmt_Sprintf format args))"

definition log_Fatal :: "string \<Rightarrow> 'a io" where
  "log_Fatal msg = ([Log msg], Inl (Exit 1))"

definition log_Fatalf :: "string \<Rightarrow> string list \<Rightarrow> 'a io" where
  "log_Fatalf format args = ([Log (fmt_Sprintf format args)], Inl (Exit 1))"

subsection \<open>The functions of main.go\<close>

text \<open>
  \<open>loadEnv\<close>: \<open>godotenv.Load()\<close> opens \<open>.env\<close> and sets every variable of the file that the
  environment does not have yet; its error is logged and ignored. The result is the
  environment afterwards.
\<close>

definition godotenv_set :: "(string \<times> string) list \<Rightarrow> (string \<times> string) list \<Rightarrow> (string \<times> string) list" where
  "godotenv_set env file = env @ filter (\<lambda>(k, v). map_of env k = None) file"

definition loadEnv :: "world \<Rightarrow> (string \<times> string) list io" where
  "loadEnv w =
     bind (log_Println ''Loading environment variables...'') (\<lambda>_.
     bind (emit LoadDotenv) (\<lambda>_.
       case dotenv w of
         Inl err \<Rightarrow>
           bind (log_Printf (''No .env file found: %v'' @ [CHR 0x0A]) [err]) (\<lambda>_.
           ret (environ w))
       | Inr file \<Rightarrow> ret (godotenv_set (environ w) file)))"

definition os_Getenv :: "(string \<times> string) list \<Rightarrow> string \<Rightarrow> string" where
  "os_Getenv env key = (case map_of env key of None \<Rightarrow> [] | Some v \<Rightarrow> v)"

definition getEnv :: "(string \<times> string) list \<Rightarrow> string \<Rightarrow> string io" where
  "getEnv env key =
     (let v = os_Getenv env key
      in if v = [] then log_Fatalf ''%s not set in environment'' [key] else ret v)"

text \<open>The request \<open>transcribeAudio\<close> builds before it posts.\<close>

definition whisper_request :: "string \<Rightarrow> string \<Rightarrow> string \<Rightarrow> request" where
  "whisper_request filePath audioBytes apiKey =
     \<lparr>timeout_minutes = 10,
      url = ''https://api.openai.com/v1/audio/transcriptions'',
      headers = [(''Authorization'', fmt_Sprintf ''Bearer %s'' [apiKey])],
      body = Multipart ''file'' (filepath_Base filePath) audioBytes [(''model'', ''whisper-1'')]\<rparr>"

definition transcribeAudio :: "world \<Rightarrow> string \<Rightarrow> string \<Rightarrow> string \<Rightarrow> string io" where
  "transcribeAudio w filePath audioBytes apiKey =
     bind (log_Println ''Sending request to Whisper API...'') (\<lambda>_.
     let req = whisper_request filePath audioBytes apiKey
     in bind (emit (Post req)) (\<lambda>_.
        case http_post w req of
          Inl err \<Rightarrow> log_Fatalf ''Error sending request to Whisper API: %v'' [err]
        | Inr resp \<Rightarrow>
            if IsError resp then
              log_Fatalf ''Error response from Whisper API: %v'' [String_of resp]
            else
              (case unmarshal_transcription w (Body resp) of
                 Inl err \<Rightarrow> log_Fatalf ''Error unmarshalling JSON response: %v'' [err]
               | Inr transcriptionResp \<Rightarrow> ret (Text transcriptionResp))))"

definition createOutputDir :: "world \<Rightarrow> string io" where
  "createOutputDir w =
     (let outputDir = ''output''
      in bind (emit (Stat outputDir)) (\<lambda>_.
         if stat_not_exist w outputDir then
           bind (emit (Mkdir outputDir)) (\<lambda>_.
             case mkdir w outputDir of
               Some err \<Rightarrow> log_Fatalf ''Error creating output directory: %v'' [err]
             | None \<Rightarrow> ret outputDir)
         else ret outputDir))"

definition writeToFile :: "world \<Rightarrow> string \<Rightarrow> string \<Rightarrow> unit io" where
  "writeToFile w filePath content =
     bind (emit (WriteFile filePath content)) (\<lambda>_.
       case write_file w filePath content of
         Some err \<Rightarrow> log_Fatalf ''Error writing to file: %v'' [err]
       | None \<Rightarrow> log_Printf (''Content successfully written to %s'' @ [CHR 0x0A]) [filePath])"

definition readExistingTranscription :: "world \<Rightarrow> string \<Rightarrow> string io" where
  "readExistingTranscription w filePath =
     bind (log_Printf (''Reading existing transcription file: %s'' @ [CHR 0x0A]) [filePath]) (\<lambda>_.
     bind (emit (ReadFile filePath)) (\<lambda>_.
       case read_file w filePath of
         Inl err \<Rightarrow> log_Fatalf ''Error reading transcription file: %v'' [err]
       | Inr transcriptionBytes \<Rightarrow> ret transcriptionBytes))"

definition processTranscription :: "world \<Rightarrow> Config \<Rightarrow> (string \<times> string) io" where
  "processTranscription w config =
     (if AudioFilePath config \<noteq> [] then
        bind (log_Printf (''Reading audio file: %s'' @ [CHR 0x0A]) [AudioFilePath config]) (\<lambda>_.
        bind (emit (ReadFile (AudioFilePath config))) (\<lambda>_.
          case read_file w (AudioFilePath config) of
            Inl err \<Rightarrow> log_Fatalf ''Error reading audio file: %v'' [err]
          | Inr audioBytes \<Rightarrow>
              bind (log_Println ''Transcribing audio file...'') (\<lambda>_.
              bind (transcribeAudio w (AudioFilePath config) audioBytes (OpenAIAPIKey config))
                (\<lambda>transcriptionText.
              bind (createOutputDir w) (\<lambda>outputDir.
              let outputFileName =
                    (if OutputFileName config = [] then ''transcription.txt''
                     else OutputFileName config)
              in bind (lift (generateTimestampedFilePath (now w) outputDir outputFileName))
                (\<lambda>outputFilePath.
              bind (writeToFile w outputFilePath transcriptionText) (\<lambda>_.
              ret (transcriptionText, outputFilePath))))))))
      else if TranscriptionFilePath config \<noteq> [] then
        bind (readExistingTranscription w (TranscriptionFilePath config)) (\<lambda>transcriptionText.
        ret (transcriptionText, TranscriptionFilePath config))
      else ret ([], []))"

text \<open>\<open>createPrompt\<close>: the template is one raw string literal with a single \<open>%s\<close>.\<close>

definition prompt_template :: string where
  \<open>prompt_template =
     ''I need you to summarize the following content and convert it into an Emacs Org file format.'' @ [CHR 0x0A] @
     ''Please do not include any extra commentary or explanations.'' @ [CHR 0x0A] @
     ''Make sure the summary is detailed but concise, capturing the key points and providing enough explanation for each section. Avoid being too brief or overly terse.'' @ [CHR 0x0A] @
     [CHR 0x0A] @
     ''The response should only contain the Emacs Org formatted output.'' @ [CHR 0x0A] @
     [CHR 0x0A] @
     ''Use the following structure:'' @ [CHR 0x0A] @
     [CHR 0x0A] @
     ''1. The file should have a #+title: and #+author: and #+date: header using today's date in the format like "<1999-10-04 Fri>"'' @ [CHR 0x0A] @
     ''2. Include a "Summary" section that gives a brief overview of the key points, try'' @ [CHR 0x0A] @
     ''3. Include a "Notes" section, with **subsections** that organize the content logically.'' @ [CHR 0x0A] @
     [CHR 0x0A] @
     ''Here is the content to summarize:'' @ [CHR 0x0A] @
     [CHR 0x0A] @
     ''%s'' @ [CHR 0x0A] @
     [CHR 0x0A] @
     ''Please format the response as a valid Emacs Org file.''\<close>

definition createPrompt :: "string \<Rightarrow> string" where
  "createPrompt transcriptionText = fmt_Sprintf prompt_template [transcriptionText]"

text \<open>
  \<open>createEmacsOrgNotes\<close>. The last statement indexes \<open>aiResponse.Choices[0]\<close> while it
  evaluates the arguments of \<open>writeToFile\<close>: on an empty list the runtime panics there,
  before anything is written.
\<close>

definition index0 :: "'a list \<Rightarrow> exit + 'a" where
  "index0 xs =
     (case xs of
        [] \<Rightarrow> Inl (Panic ''index out of range [0] with length 0'')
      | x # _ \<Rightarrow> Inr x)"

text \<open>The request body and the request of \<open>createEmacsOrgNotes\<close>.\<close>

definition completion_request :: "string \<Rightarrow> string \<Rightarrow> request" where
  "completion_request transcriptionText apiKey =
     (let message = [(''role'', JString ''user''),
                     (''content'', JString (createPrompt transcriptionText))];
          reqBody = JObject [(''model'', JString ''gpt-4''),
                             (''messages'', JArray [JObject message]),
                             (''max_tokens'', JNumber ''1500''),
                             (''temperature'', JNumber ''0.7'')]
      in \<lparr>timeout_minutes = 10,
          url = ''https://api.openai.com/v1/chat/completions'',
          headers = [(''Authorization'', fmt_Sprintf ''Bearer %s'' [apiKey]),
                     (''Content-Type'', ''application/json'')],
          body = JSONBody reqBody\<rparr>)"

definition createEmacsOrgNotes :: "world \<Rightarrow> string \<Rightarrow> string \<Rightarrow> string \<Rightarrow> unit io" where
  "createEmacsOrgNotes w transcriptionText apiKey baseFilePath =
     bind (log_Println ''Starting post-processing with create_emacs_org_notes command...'') (\<lambda>_.
     let req = completion_request transcriptionText apiKey
     in bind (log_Println ''Sending request to OpenAI API...'') (\<lambda>_.
        bind (emit (Post req)) (\<lambda>_.
        case http_post w req of
          Inl err \<Rightarrow> log_Fatalf ''Error sending request to OpenAI API: %v'' [err]
        | Inr resp \<Rightarrow>
            if IsError resp then
              log_Fatalf ''Error response from OpenAI API: %v'' [Error_of resp]
            else
              bind (log_Println ''Parsing OpenAI API response...'') (\<lambda>_.
                case unmarshal_openai w (Body resp) of
                  Inl err \<Rightarrow> log_Fatalf ''Error unmarshalling OpenAI response: %v'' [err]
                | Inr aiResponse \<Rightarrow>
                    (let outputFilePath = generateOrgFilePath baseFilePath
                     in bind (lift (index0 (Choices aiResponse))) (\<lambda>choice.
                        writeToFile w outputFilePath (Content (Message choice))))))))"

text \<open>
  \<open>main\<close>, from the parsed flags (\<open>parseFlags\<close> leaves the key empty) and the world. The
  process status is 0 when the computation returns.
\<close>

definition main :: "world \<Rightarrow> Config \<Rightarrow> unit io" where
  "main w flags =
     bind (loadEnv w) (\<lambda>env.
     bind (getEnv env ''OPENAI_API_KEY'') (\<lambda>key.
     let config = flags\<lparr>OpenAIAPIKey := key\<rparr>
     in bind (if AudioFilePath config = [] \<and> TranscriptionFilePath config = [] then
                log_Fatal ''The -file or -transcription argument is required.''
              else ret ()) (\<lambda>_.
        bind (processTranscription w config) (\<lambda>(transcriptionText, outputFilePath).
        if PostProcessCmd config = ''create_emacs_org_notes'' then
          createEmacsOrgNotes w transcriptionText (OpenAIAPIKey config) outputFilePath
        else ret ()))))"

subsection \<open>Classes of inputs used in the statements\<close>

text \<open>
  A plain path element: not empty, without a separator, and neither \<open>.\<close> nor \<open>..\<close>.
  \<open>stem\<close> is the base name without its extension.
\<close>

definition plain_elem :: "string \<Rightarrow> bool" where
  "plain_elem e = (e \<noteq> [] \<and> CHR ''/'' \<notin> set e \<and> e \<noteq> ''.'' \<and> e \<noteq> ''..'')"

definition stem :: "string \<Rightarrow> string" where
  "stem baseFileName = take (length baseFileName - length (filepath_Ext baseFileName)) baseFileName"

text \<open>The character of a decimal digit.\<close>

definition digit :: "nat \<Rightarrow> char" where
  "digit d = ''0123456789'' ! d"

text \<open>
  Kinds of events. Loading \<open>.env\<close> opens and reads a file, so it counts as a file
  operation; a request is a network operation; a log line is neither.
\<close>

fun is_file_op :: "event \<Rightarrow> bool" where
  "is_file_op LoadDotenv = True"
| "is_file_op (ReadFile p) = True"
| "is_file_op (Stat p) = True"
| "is_file_op (Mkdir p) = True"
| "is_file_op (WriteFile p c) = True"
| "is_file_op (Log m) = False"
| "is_file_op (Post r) = False"

fun is_net_op :: "event \<Rightarrow> bool" where
  "is_net_op (Post r) = True"
| "is_net_op e = False"

fun is_completion_request :: "event \<Rightarrow> bool" where
  "is_completion_request (Post r) = (url r = ''https://api.openai.com/v1/chat/completions'')"
| "is_completion_request e = False"

text \<open>
  The environment after \<open>loadEnv\<close>, and the part of \<open>main\<close> up to and including the
  transcription stage.
\<close>

definition env_after_load :: "world \<Rightarrow> (string \<times> string) list" where
  "env_after_load w =
     (case dotenv w of Inl err \<Rightarrow> environ w | Inr file \<Rightarrow> godotenv_set (environ w) file)"

definition transcription_stage :: "world \<Rightarrow> Config \<Rightarrow> (string \<times> string) io" where
  "transcription_stage w flags =
     bind (loadEnv w) (\<lambda>env.
     bind (getEnv env ''OPENAI_API_KEY'') (\<lambda>key.
     let config = flags\<lparr>OpenAIAPIKey := key\<rparr>
     in bind (if AudioFilePath config = [] \<and> TranscriptionFilePath config = [] then
                log_Fatal ''The -file or -transcription argument is required.''
              else ret ()) (\<lambda>_.
        processTranscription w config)))"

text \<open>The name \<open>processTranscription\<close> gives the output file.\<close>

definition output_name :: "Config \<Rightarrow> string" where
  "output_name config =
     (if OutputFileName config = [] then ''transcription.txt'' else OutputFileName config)"

subsection \<open>Concrete worlds and four invocations\<close>

text \<open>
  The key is in the environment and there is no \<open>.env\<close>; every file reads as audio bytes
  except \<open>t.txt\<close>, which holds \<open>meeting notes\<close>; the directory \<open>output\<close> does not exist
  and can be created; every write succeeds; the transcription endpoint answers
  \<open>{"text": "hello world"}\<close> and the completion endpoint answers \<open>{"choices": []}\<close>, both
  with a success status, and the decoders decode these two bodies as \<open>json.Unmarshal\<close>
  does.
\<close>

definition whisper_ok :: response where
  \<open>whisper_ok = \<lparr>IsError = False, Body = ''{"text": "hello world"}'',
                  String_of = ''{"text": "hello world"}'', Error_of = ''<nil>''\<rparr>\<close>

definition completion_empty :: response where
  \<open>completion_empty = \<lparr>IsError = False, Body = ''{"choices": []}'',
                        String_of = ''{"choices": []}'', Error_of = ''<nil>''\<rparr>\<close>

definition demo_world :: world where
  \<open>demo_world =
     \<lparr>environ = [(''OPENAI_API_KEY'', ''sk-test'')],
      dotenv = Inl ''open .env: no such file or directory'',
      read_file = (\<lambda>p. if p = ''t.txt'' then Inr ''meeting notes'' else Inr ''RIFF''),
      stat_not_exist = (\<lambda>p. True),
      mkdir = (\<lambda>p. None),
      write_file = (\<lambda>p c. None),
      http_post = (\<lambda>r.
        if url r = ''https://api.openai.com/v1/audio/transcriptions'' then Inr whisper_ok
        else Inr completion_empty),
      unmarshal_transcription = (\<lambda>b.
        if b = ''{"text": "hello world"}'' then Inr \<lparr>Text = ''hello world''\<rparr>
        else Inl ''unexpected end of JSON input''),
      unmarshal_openai = (\<lambda>b.
        if b = ''{"choices": []}'' then Inr \<lparr>Choices = []\<rparr>
        else Inl ''unexpected end of JSON input''),
      now = \<lparr>Year = 2024, Month = 3, Day = 7, Hour = 9, Minute = 5, Second = 0\<rparr>\<rparr>\<close>

text \<open>The same world without the key: \<open>.env\<close> exists and sets another variable only.\<close>

definition world_no_key :: world where
  "world_no_key = demo_world\<lparr>environ := [], dotenv := Inr [(''OTHER'', ''1'')]\<rparr>"

text \<open>
  The world in which the completion endpoint answers with one choice whose content is
  \<open>#+title: Test\<close>.
\<close>

definition completion_one :: response where
  \<open>completion_one = \<lparr>IsError = False,
      Body = ''{"choices": [{"message": {"content": "#+title: Test"}}]}'',
      String_of = ''{"choices": [{"message": {"content": "#+title: Test"}}]}'',
      Error_of = ''<nil>''\<rparr>\<close>

definition notes_world :: world where
  \<open>notes_world = demo_world
     \<lparr>http_post := (\<lambda>r.
        if url r = ''https://api.openai.com/v1/audio/transcriptions'' then Inr whisper_ok
        else Inr completion_one),
      unmarshal_openai := (\<lambda>b.
        if b = ''{"choices": [{"message": {"content": "#+title: Test"}}]}''
        then Inr \<lparr>Choices = [\<lparr>Message = \<lparr>Content = ''#+title: Test''\<rparr>\<rparr>]\<rparr>
        else Inl ''unexpected end of JSON input'')\<rparr>\<close>

definition flags_audio :: Config where
  "flags_audio = \<lparr>AudioFilePath = ''a.mp3'', TranscriptionFilePath = [], OutputFileName = [],
                  PostProcessCmd = [], OpenAIAPIKey = []\<rparr>"

definition flags_both :: Config where
  "flags_both = \<lparr>AudioFilePath = ''a.mp3'', TranscriptionFilePath = ''t.txt'', OutputFileName = [],
                 PostProcessCmd = [], OpenAIAPIKey = []\<rparr>"

definition flags_none :: Config where
  "flags_none = \<lparr>AudioFilePath = [], TranscriptionFilePath = [], OutputFileName = [],
                 PostProcessCmd = [], OpenAIAPIKey = []\<rparr>"

definition flags_notes :: Config where
  "flags_notes = \<lparr>AudioFilePath = [], TranscriptionFilePath = ''t.txt'', OutputFileName = [],
                  PostProcessCmd = ''create_emacs_org_notes'', OpenAIAPIKey = []\<rparr>"

section \<open>Properties\<close>

subsection \<open>Extensions, formatting, timestamps\<close>

lemma ext_scan_drop: "i \<le> length p \<Longrightarrow> \<exists>k \<le> length p. ext_scan p i = drop k p"
proof (induction i)
  case 0
  have "ext_scan p 0 = drop (length p) p" by simp
  then show ?case by blast
next
  case (Suc i)
  then show ?case by (auto intro: exI [of _ i])
qed

lemma filepath_Ext_drop: "\<exists>k \<le> length p. filepath_Ext p = drop k p"
  unfolding filepath_Ext_def by (rule ext_scan_drop) simp

lemma length_filepath_Ext: "length (filepath_Ext p) \<le> length p"
  using filepath_Ext_drop [of p] by auto

lemma stem_append_Ext: "take (length p - length (filepath_Ext p)) p @ filepath_Ext p = p"
proof -
  obtain k where k: "k \<le> length p" "filepath_Ext p = drop k p"
    using filepath_Ext_drop by blast
  then have "length p - length (filepath_Ext p) = k" by simp
  with k show ?thesis by simp
qed

lemma ext_scan_nodot:
  "i \<le> length p \<Longrightarrow> CHR ''.'' \<notin> set p \<Longrightarrow> ext_scan p i = []"
proof (induction i)
  case 0
  then show ?case by simp
next
  case (Suc i)
  then have "p ! i \<in> set p" by simp
  with Suc.prems(2) have "p ! i \<noteq> CHR ''.''" by metis
  with Suc show ?case by simp
qed

lemma filepath_Ext_nodot: "CHR ''.'' \<notin> set p \<Longrightarrow> filepath_Ext p = []"
  by (simp add: filepath_Ext_def ext_scan_nodot)

lemma ext_scan_at_dot:
  assumes "CHR ''.'' \<notin> set e" "CHR ''/'' \<notin> set e"
  shows "k \<le> length e \<Longrightarrow> ext_scan (q @ CHR ''.'' # e) (Suc (length q + k)) = CHR ''.'' # e"
proof (induction k)
  case 0
  then show ?case by simp
next
  case (Suc k)
  let ?p = "q @ CHR ''.'' # e"
  have nth: "?p ! Suc (length q + k) = e ! k"
    by (simp add: nth_append)
  have mem: "e ! k \<in> set e" using Suc.prems by simp
  with assms have ne: "e ! k \<noteq> CHR ''.''" "e ! k \<noteq> CHR ''/''" by auto
  have "ext_scan ?p (Suc (length q + Suc k)) = ext_scan ?p (Suc (Suc (length q + k)))"
    by simp
  also have "\<dots> = ext_scan ?p (Suc (length q + k))"
    by (subst ext_scan.simps) (simp only: nth ne if_False)
  also have "\<dots> = CHR ''.'' # e" using Suc by simp
  finally show ?case .
qed

lemma filepath_Ext_dot:
  "CHR ''.'' \<notin> set e \<Longrightarrow> CHR ''/'' \<notin> set e \<Longrightarrow> filepath_Ext (q @ CHR ''.'' # e) = CHR ''.'' # e"
  using ext_scan_at_dot [of e "length e" q] by (simp add: filepath_Ext_def)

lemma doPrintf_plain: "CHR ''%'' \<notin> set pre \<Longrightarrow> doPrintf (pre @ fs) args = pre @ doPrintf fs args"
proof (induction pre)
  case Nil
  then show ?case by simp
next
  case (Cons c pre)
  then show ?case by (cases "pre @ fs") auto
qed

lemma Sprintf_name_stamp_ext: "fmt_Sprintf ''%s_%s%s'' [a, b, c] = a @ ''_'' @ b @ c"
  by (simp add: fmt_Sprintf_def)

lemma Sprintf_org: "fmt_Sprintf ''%s_emacs_org_notes.org'' [a] = a @ ''_emacs_org_notes.org''"
  by (simp add: fmt_Sprintf_def)

lemma decimal_digits: "set (decimal n) \<subseteq> set ''0123456789''"
proof (induction n rule: decimal.induct)
  case (1 n)
  have d: "\<And>k. k < 10 \<Longrightarrow> ''0123456789'' ! k \<in> set ''0123456789''"
    by (rule nth_mem) simp
  show ?case
  proof (cases "n < 10")
    case True
    then show ?thesis using d [of n] by (subst decimal.simps) simp
  next
    case False
    have "n mod 10 < 10" by simp
    from d [OF this] 1 [OF False] False show ?thesis
      by (subst decimal.simps) simp
  qed
qed

lemma appendInt_digits: "set (appendInt x w) \<subseteq> set ''0123456789''"
  using decimal_digits [of x] by (auto simp: appendInt_def)

lemma Format_chars: "set (Format_20060102_150405 t) \<subseteq> set ''0123456789_''"
  unfolding Format_20060102_150405_def
  using appendInt_digits by (auto simp del: set_simps; fastforce)

lemma decimal_unfold:
  "decimal n = (if n < 10 then [digit n] else decimal (n div 10) @ [digit (n mod 10)])"
  unfolding digit_def by (rule decimal.simps)

lemma digit_0: "digit 0 = CHR ''0''"
  by (simp add: digit_def)

lemma decimal_1: "n < 10 \<Longrightarrow> decimal n = [digit n]"
  by (subst decimal_unfold) simp

lemma decimal_2:
  "10 \<le> n \<Longrightarrow> n < 100 \<Longrightarrow> decimal n = [digit (n div 10), digit (n mod 10)]"
  by (subst decimal_unfold) (simp add: decimal_1)

lemma decimal_3:
  "100 \<le> n \<Longrightarrow> n < 1000 \<Longrightarrow>
   decimal n = [digit (n div 100), digit (n div 10 mod 10),
                digit (n mod 10)]"
proof -
  assume a: "100 \<le> n" "n < 1000"
  then have "10 \<le> n div 10" "n div 10 < 100" by auto
  then have "decimal (n div 10) =
     [digit (n div 10 div 10), digit (n div 10 mod 10)]"
    by (rule decimal_2)
  moreover have "n div 10 div 10 = n div 100" by (simp add: div_mult2_eq)
  ultimately show ?thesis using a by (subst decimal_unfold) simp
qed

lemma decimal_4:
  "1000 \<le> n \<Longrightarrow> n < 10000 \<Longrightarrow>
   decimal n = [digit (n div 1000), digit (n div 100 mod 10),
                digit (n div 10 mod 10), digit (n mod 10)]"
proof -
  assume a: "1000 \<le> n" "n < 10000"
  then have "100 \<le> n div 10" "n div 10 < 1000" by auto
  then have "decimal (n div 10) =
     [digit (n div 10 div 100), digit (n div 10 div 10 mod 10),
      digit (n div 10 mod 10)]"
    by (rule decimal_3)
  moreover have "n div 10 div 100 = n div 1000" "n div 10 div 10 = n div 100"
    by (simp_all add: div_mult2_eq)
  ultimately show ?thesis using a by (subst decimal_unfold) simp
qed

lemma rep: "replicate 3 c = [c, c, c]" "replicate 2 c = [c, c]"
  by (simp_all add: numeral_3_eq_3 numeral_2_eq_2)

lemma appendInt_2:
  "n < 100 \<Longrightarrow> appendInt n 2 = [digit (n div 10), digit (n mod 10)]"
  by (cases "n < 10") (simp_all add: appendInt_def decimal_1 decimal_2 digit_0 rep)

lemma appendInt_4:
  assumes "n < 10000"
  shows "appendInt n 4 = [digit (n div 1000), digit (n div 100 mod 10),
                digit (n div 10 mod 10), digit (n mod 10)]"
proof -
  consider "n < 10" | "10 \<le> n" "n < 100" | "100 \<le> n" "n < 1000" | "1000 \<le> n"
    by linarith
  then show ?thesis
  proof cases
    case 1
    then show ?thesis by (simp add: appendInt_def decimal_1 digit_0 rep)
  next
    case 2
    then show ?thesis by (simp add: appendInt_def decimal_2 digit_0 rep)
  next
    case 3
    then show ?thesis by (simp add: appendInt_def decimal_3 digit_0 rep)
  next
    case 4
    then show ?thesis using assms by (simp add: appendInt_def decimal_4)
  qed
qed

lemma Format_layout:
  assumes "Year t < 10000" "Month t < 100" "Day t < 100" "Hour t < 100" "Minute t < 100"
    "Second t < 100"
  shows "Format_20060102_150405 t =
     [digit (Year t div 1000), digit (Year t div 100 mod 10),
      digit (Year t div 10 mod 10), digit (Year t mod 10),
      digit (Month t div 10), digit (Month t mod 10),
      digit (Day t div 10), digit (Day t mod 10),
      CHR ''_'',
      digit (Hour t div 10), digit (Hour t mod 10),
      digit (Minute t div 10), digit (Minute t mod 10),
      digit (Second t div 10), digit (Second t mod 10)]"
  unfolding Format_20060102_150405_def
  by (simp only: appendInt_4 [OF assms(1)] appendInt_2 [OF assms(2)] appendInt_2 [OF assms(3)]
      appendInt_2 [OF assms(4)] appendInt_2 [OF assms(5)] appendInt_2 [OF assms(6)]
      append_Cons append_Nil)

subsection \<open>Cleaning and splitting paths\<close>

lemma takeWhile_elem:
  assumes "CHR ''/'' \<notin> set e" "rest = [] \<or> hd rest = CHR ''/''"
  shows "takeWhile (\<lambda>x. \<not> IsPathSeparator x) (e @ rest) = e"
    and "dropWhile (\<lambda>x. \<not> IsPathSeparator x) (e @ rest) = rest"
proof -
  have all: "\<forall>x \<in> set e. \<not> IsPathSeparator x" using assms(1) by auto
  have t: "takeWhile (\<lambda>x. \<not> IsPathSeparator x) rest = []"
    and d: "dropWhile (\<lambda>x. \<not> IsPathSeparator x) rest = rest"
    using assms(2) by (cases rest; simp)+
  show "takeWhile (\<lambda>x. \<not> IsPathSeparator x) (e @ rest) = e"
    using all t by (simp add: takeWhile_append2)
  show "dropWhile (\<lambda>x. \<not> IsPathSeparator x) (e @ rest) = rest"
    using all d by (simp add: dropWhile_append2)
qed

lemma clean_loop_sep: "clean_loop r (CHR ''/'' # rest) out dd = clean_loop r rest out dd"
  by (simp add: clean_loop.simps)

lemma clean_loop_elem:
  assumes "plain_elem e" "rest = [] \<or> hd rest = CHR ''/''"
  shows "clean_loop r (e @ rest) out dd = clean_loop r rest (add_sep r out @ e) dd"
proof -
  from assms(1) obtain c e' where e: "e = c # e'"
    by (cases e) (auto simp: plain_elem_def)
  from assms(1) have ns: "CHR ''/'' \<notin> set e" by (simp add: plain_elem_def)
  then have c: "\<not> IsPathSeparator c" by (auto simp: e)
  have nd: "\<not> (c = CHR ''.'' \<and> (e' @ rest = [] \<or> IsPathSeparator (hd (e' @ rest))))"
  proof (cases e')
    case Nil
    then show ?thesis using assms(1) by (simp add: plain_elem_def e)
  next
    case (Cons d e'')
    then show ?thesis using ns by (auto simp: e)
  qed
  have ndd: "\<not> (c = CHR ''.'' \<and> hd (e' @ rest) = CHR ''.'' \<and>
                (tl (e' @ rest) = [] \<or> IsPathSeparator (hd (tl (e' @ rest)))))"
  proof (cases e')
    case Nil
    then show ?thesis using assms by (auto simp: plain_elem_def e)
  next
    case e': (Cons d e'')
    show ?thesis
    proof (cases e'')
      case Nil
      then show ?thesis using assms e' by (auto simp: plain_elem_def e)
    next
      case (Cons d' e''')
      then show ?thesis using ns e' by (auto simp: e)
    qed
  qed
  have "clean_loop r (c # (e' @ rest)) out dd =
        clean_loop r (dropWhile (\<lambda>x. \<not> IsPathSeparator x) (c # (e' @ rest)))
          (add_sep r out @ takeWhile (\<lambda>x. \<not> IsPathSeparator x) (c # (e' @ rest))) dd"
    by (subst clean_loop.simps) (simp only: c nd ndd if_False Let_def add_sep_def)
  then show ?thesis
    using takeWhile_elem [OF ns assms(2)] by (simp add: e)
qed

lemma clean_loop_elems:
  assumes "rest = [] \<or> hd rest = CHR ''/''"
  shows "es \<noteq> [] \<Longrightarrow> \<forall>e \<in> set es. plain_elem e \<Longrightarrow>
         clean_loop r (strings_Join es ''/'' @ rest) out dd =
         clean_loop r rest (add_sep r out @ strings_Join es ''/'') dd"
proof (induction es "''/''" arbitrary: out rule: strings_Join.induct)
  case 1
  then show ?case by simp
next
  case (2 e)
  then show ?case using clean_loop_elem [OF _ assms] by simp
next
  case (3 e e' es)
  have step: "clean_loop r (e @ (CHR ''/'' # strings_Join (e' # es) ''/'' @ rest)) out dd =
        clean_loop r (CHR ''/'' # strings_Join (e' # es) ''/'' @ rest) (add_sep r out @ e) dd"
    using 3(3) by (intro clean_loop_elem) simp_all
  have e: "e \<noteq> []" using 3(3) by (simp add: plain_elem_def)
  have sep: "add_sep r (add_sep r out @ e) = add_sep r out @ e @ ''/''"
    using e by (cases e) (auto simp: add_sep_def)
  have "clean_loop r (strings_Join (e' # es) ''/'' @ rest) (add_sep r out @ e) dd =
        clean_loop r rest (add_sep r (add_sep r out @ e) @ strings_Join (e' # es) ''/'') dd"
    using 3 by (intro 3(1)) auto
  with step show ?case
    by (simp add: clean_loop_sep sep)
qed

lemma strings_Join_plain:
  "es \<noteq> [] \<Longrightarrow> \<forall>e \<in> set es. plain_elem e \<Longrightarrow>
   strings_Join es ''/'' \<noteq> [] \<and> hd (strings_Join es ''/'') \<noteq> CHR ''/''"
proof (induction es "''/''" rule: strings_Join.induct)
  case 1
  then show ?case by simp
next
  case (2 e)
  then show ?case by (cases e) (auto simp: plain_elem_def)
next
  case (3 e e' es)
  then show ?case by (cases e) (auto simp: plain_elem_def)
qed

lemma Clean_relative:
  assumes "es \<noteq> []" "\<forall>e \<in> set es. plain_elem e" "rest = [] \<or> hd rest = CHR ''/''"
  shows "filepath_Clean (strings_Join es ''/'' @ rest) =
         (let out = clean_loop False rest (strings_Join es ''/'') 0
          in if out = [] then ''.'' else out)"
proof -
  let ?p = "strings_Join es ''/''"
  from strings_Join_plain [OF assms(1,2)] have p: "?p \<noteq> []" "hd ?p \<noteq> CHR ''/''" by auto
  have run: "clean_loop False (?p @ rest) [] 0 = clean_loop False rest ?p 0"
    using clean_loop_elems [OF assms(3) assms(1,2), of False "[]" 0] by (simp add: add_sep_def)
  show ?thesis using p by (simp add: filepath_Clean_def run)
qed

lemma Clean_plain:
  assumes "es \<noteq> []" "\<forall>e \<in> set es. plain_elem e"
  shows "filepath_Clean (strings_Join es ''/'') = strings_Join es ''/''"
    and "filepath_Clean (strings_Join es ''/'' @ ''/'') = strings_Join es ''/''"
proof -
  from strings_Join_plain [OF assms] have p: "strings_Join es ''/'' \<noteq> []" by simp
  show "filepath_Clean (strings_Join es ''/'') = strings_Join es ''/''"
    using Clean_relative [OF assms, of "[]"] p by (simp add: clean_loop.simps)
  show "filepath_Clean (strings_Join es ''/'' @ ''/'') = strings_Join es ''/''"
    using Clean_relative [OF assms, of "''/''"] p by (simp add: clean_loop.simps)
qed

lemma last_sep_after:
  assumes "CHR ''/'' \<notin> set f"
  shows "k \<le> length f \<Longrightarrow> last_sep (d @ CHR ''/'' # f) (Suc (length d + k)) = int (length d)"
proof (induction k)
  case 0
  then show ?case by simp
next
  case (Suc k)
  let ?p = "d @ CHR ''/'' # f"
  have nth: "?p ! Suc (length d + k) = f ! k" by (simp add: nth_append)
  have "f ! k \<in> set f" using Suc.prems by simp
  with assms have ne: "f ! k \<noteq> CHR ''/''" by metis
  have "last_sep ?p (Suc (length d + Suc k)) = last_sep ?p (Suc (Suc (length d + k)))" by simp
  also have "\<dots> = last_sep ?p (Suc (length d + k))"
    by (subst last_sep.simps) (simp only: nth ne if_False)
  also have "\<dots> = int (length d)" using Suc by simp
  finally show ?case .
qed

lemma last_sep_none: "i \<le> length f \<Longrightarrow> CHR ''/'' \<notin> set f \<Longrightarrow> last_sep f i = - 1"
proof (induction i)
  case 0
  then show ?case by simp
next
  case (Suc i)
  then have "f ! i \<in> set f" by simp
  with Suc.prems(2) have "f ! i \<noteq> CHR ''/''" by metis
  with Suc show ?case by simp
qed

lemma strip_trailing_id: "p \<noteq> [] \<Longrightarrow> last p \<noteq> CHR ''/'' \<Longrightarrow> strip_trailing p (length p) = p"
proof -
  assume a: "p \<noteq> []" "last p \<noteq> CHR ''/''"
  then obtain n where n: "length p = Suc n" by (cases p) auto
  with a have "p ! n = last p" by (simp add: last_conv_nth)
  with a n show ?thesis by simp
qed

lemma last_sep_split:
  "CHR ''/'' \<notin> set f \<Longrightarrow> last_sep (d @ CHR ''/'' # f) (length (d @ CHR ''/'' # f)) = int (length d)"
  using last_sep_after [of f "length f" d] by (simp del: last_sep.simps)

lemma filepath_Dir_split:
  assumes "CHR ''/'' \<notin> set f"
  shows "filepath_Dir (d @ CHR ''/'' # f) = filepath_Clean (d @ ''/'')"
proof -
  have n: "nat (int (length d) + 1) = Suc (length d)" by simp
  show ?thesis
    unfolding filepath_Dir_def last_sep_split [OF assms] n by simp
qed

lemma filepath_Base_split:
  assumes "CHR ''/'' \<notin> set f" "f \<noteq> []"
  shows "filepath_Base (d @ CHR ''/'' # f) = f"
proof -
  let ?p = "d @ CHR ''/'' # f"
  have n: "nat (int (length d) + 1) = Suc (length d)" by simp
  have "last ?p = last f" using assms by simp
  moreover have "last f \<in> set f" using assms by simp
  ultimately have "last ?p \<noteq> CHR ''/''" using assms(1) by metis
  then have s: "strip_trailing ?p (length ?p) = ?p" by (intro strip_trailing_id) simp_all
  have "filepath_Base ?p = drop (Suc (length d)) ?p"
    unfolding filepath_Base_def Let_def s last_sep_split [OF assms(1)] n
    using assms(2) by simp
  then show ?thesis by simp
qed

lemma TrimSuffix_append: "strings_TrimSuffix (a @ b) b = a"
  by (simp add: strings_TrimSuffix_def strings_HasSuffix_def)

subsection \<open>Output paths\<close>

lemma slice_stem:
  "slice_to b (int (length b) - int (length (filepath_Ext b))) = Inr (stem b)"
  using length_filepath_Ext [of b] by (simp add: slice_to_def stem_def nat_diff_distrib')

lemma generateTimestampedFilePath_eq:
  "generateTimestampedFilePath t dir b =
     Inr (filepath_Join [dir, stem b @ ''_'' @ Format_20060102_150405 t @ filepath_Ext b])"
  by (simp add: generateTimestampedFilePath_def Let_def slice_stem Sprintf_name_stamp_ext)

lemma stem_Ext: "stem b @ filepath_Ext b = b"
  by (simp add: stem_def stem_append_Ext)

lemma not_dots: "x \<in> set c \<Longrightarrow> x \<noteq> CHR ''.'' \<Longrightarrow> c \<noteq> ''.'' \<and> c \<noteq> ''..''"
  by auto

lemma stamped_plain:
  assumes "CHR ''/'' \<notin> set b"
  shows "plain_elem (stem b @ ''_'' @ Format_20060102_150405 t @ filepath_Ext b)"
proof -
  let ?ts = "Format_20060102_150405 t"
  let ?c = "stem b @ ''_'' @ ?ts @ filepath_Ext b"
  have "set (stem b) \<union> set (filepath_Ext b) = set b"
    using stem_Ext [of b] by (metis set_append)
  with assms have sb: "CHR ''/'' \<notin> set (stem b)" "CHR ''/'' \<notin> set (filepath_Ext b)" by auto
  have ts: "CHR ''/'' \<notin> set ?ts" using Format_chars [of t] by auto
  have u: "CHR ''_'' \<in> set ?c" by simp
  have "?c \<noteq> ''.'' \<and> ?c \<noteq> ''..''" by (rule not_dots [OF u]) simp
  then show ?thesis using sb ts by (simp add: plain_elem_def)
qed

lemma strings_Join_snoc:
  "es \<noteq> [] \<Longrightarrow> strings_Join (es @ [c]) sep = strings_Join es sep @ sep @ c"
  by (induction es sep rule: strings_Join.induct) auto

lemma Join_plain_dir:
  assumes "es \<noteq> []" "\<forall>e \<in> set es. plain_elem e" "plain_elem c"
  shows "filepath_Join [strings_Join es ''/'', c] = strings_Join es ''/'' @ ''/'' @ c"
proof -
  have ne: "strings_Join es ''/'' \<noteq> []" using strings_Join_plain [OF assms(1,2)] by simp
  have "filepath_Clean (strings_Join (es @ [c]) ''/'') = strings_Join (es @ [c]) ''/''"
    using assms by (intro Clean_plain) auto
  then show ?thesis using ne assms(1) by (simp add: strings_Join_snoc)
qed

lemma Clean_rooted:
  assumes "es \<noteq> []" "\<forall>e \<in> set es. plain_elem e" "rest = [] \<or> hd rest = CHR ''/''"
  shows "filepath_Clean (CHR ''/'' # strings_Join es ''/'' @ rest) =
         (let out = clean_loop True rest (CHR ''/'' # strings_Join es ''/'') 1
          in if out = [] then ''.'' else out)"
proof -
  have "clean_loop True (strings_Join es ''/'' @ rest) ''/'' 1 =
        clean_loop True rest (add_sep True ''/'' @ strings_Join es ''/'') 1"
    using assms(3,1,2) by (rule clean_loop_elems)
  then show ?thesis by (simp add: filepath_Clean_def add_sep_def)
qed

lemma Clean_rooted_plain:
  assumes "es \<noteq> []" "\<forall>e \<in> set es. plain_elem e"
  shows "filepath_Clean (CHR ''/'' # strings_Join es ''/'') = CHR ''/'' # strings_Join es ''/''"
    and "filepath_Clean (CHR ''/'' # strings_Join es ''/'' @ ''/'') = CHR ''/'' # strings_Join es ''/''"
  using Clean_rooted [OF assms, of "[]"] Clean_rooted [OF assms, of "''/''"]
  by (simp_all add: clean_loop.simps)

lemma Join_rooted_dir:
  assumes "es \<noteq> []" "\<forall>e \<in> set es. plain_elem e" "plain_elem c"
  shows "filepath_Join [CHR ''/'' # strings_Join es ''/'', c] =
         CHR ''/'' # strings_Join es ''/'' @ ''/'' @ c"
proof -
  have "filepath_Clean (CHR ''/'' # strings_Join (es @ [c]) ''/'') =
        CHR ''/'' # strings_Join (es @ [c]) ''/''"
    using assms by (intro Clean_rooted_plain) auto
  then show ?thesis using assms(1) by (simp add: strings_Join_snoc)
qed

lemma split_last_elem:
  "\<exists>q f. b = q @ f \<and> CHR ''/'' \<notin> set f \<and> (q = [] \<or> last q = CHR ''/'')"
proof -
  let ?P = "\<lambda>x. \<not> IsPathSeparator x"
  let ?f = "rev (takeWhile ?P (rev b))" and ?q = "rev (dropWhile ?P (rev b))"
  have "b = ?q @ ?f"
    by (metis rev_append rev_rev_ident takeWhile_dropWhile_id)
  moreover have "CHR ''/'' \<notin> set ?f"
    using set_takeWhileD [of "CHR ''/''" ?P "rev b"] by auto
  moreover have "?q = [] \<or> last ?q = CHR ''/''"
    using hd_dropWhile [of ?P "rev b"] by (auto simp: last_rev)
  ultimately show ?thesis by blast
qed

lemma clean_loop_last_elem:
  assumes "plain_elem e"
  shows "q = [] \<or> last q = CHR ''/'' \<Longrightarrow> \<exists>x. clean_loop r (q @ e) out dd = x @ e"
proof (induction "length q" arbitrary: q out dd rule: less_induct)
  case less
  show ?case
  proof (cases q)
    case Nil
    have "clean_loop r (e @ []) out dd = clean_loop r [] (add_sep r out @ e) dd"
      using assms by (rule clean_loop_elem) simp
    then show ?thesis using Nil by (simp add: clean_loop.simps)
  next
    case (Cons c q')
    with less.prems have lq: "last q = CHR ''/''" by simp
    have IH: "\<exists>x. clean_loop r (q'' @ e) out' dd' = x @ e"
      if "length q'' < length q" "q'' = [] \<or> last q'' = CHR ''/''" for q'' out' dd'
      using less.hyps [OF that] .
    have q'_ok: "q' = [] \<or> last q' = CHR ''/''" using lq Cons by (cases q') auto
    show ?thesis
    proof (cases "IsPathSeparator c")
      case True
      then have "clean_loop r (q @ e) out dd = clean_loop r (q' @ e) out dd"
        by (simp add: Cons clean_loop.simps)
      then show ?thesis using IH [of q' out dd] q'_ok Cons by simp
    next
      case nsep: False
      then have q'ne: "q' \<noteq> []" using lq Cons by auto
      then have hd_cs: "hd (q' @ e) = hd q'" "q' @ e \<noteq> []" by simp_all
      show ?thesis
      proof (cases "c = CHR ''.'' \<and> IsPathSeparator (hd q')")
        case True
        then have "clean_loop r (q @ e) out dd = clean_loop r (q' @ e) out dd"
          using nsep hd_cs by (simp add: Cons clean_loop.simps)
        then show ?thesis using IH [of q' out dd] q'_ok Cons by simp
      next
        case ndot: False
        obtain d q'' where q': "q' = d # q''" using q'ne by (cases q') auto
        show ?thesis
        proof (cases "c = CHR ''.'' \<and> d = CHR ''.'' \<and> q'' \<noteq> [] \<and> IsPathSeparator (hd q'')")
          case True
          then have q''_ok: "last q'' = CHR ''/''" using lq Cons q' by simp
          have len: "length q'' < length q" using Cons q' by simp
          have "\<exists>out' dd'. clean_loop r (q @ e) out dd = clean_loop r (q'' @ e) out' dd'"
            using True nsep ndot
            by (simp add: Cons q' clean_loop.simps Let_def) blast
          then show ?thesis using IH [OF len] q''_ok by metis
        next
          case ndd: False
          let ?P = "\<lambda>x. \<not> IsPathSeparator x"
          have mem: "CHR ''/'' \<in> set q" using lq Cons by (metis last_in_set list.distinct(1))
          have dw: "dropWhile ?P (q @ e) = dropWhile ?P q @ e"
            and tw: "takeWhile ?P (q @ e) = takeWhile ?P q"
            using mem by (simp_all add: dropWhile_append1 takeWhile_append1)
          have dne: "dropWhile ?P q \<noteq> []" using mem by (simp add: dropWhile_eq_Nil_conv) 
          have "last (takeWhile ?P q @ dropWhile ?P q) = last (dropWhile ?P q)"
            using dne by (rule last_appendR)
          then have dlast: "last (dropWhile ?P q) = CHR ''/''" using lq by simp
          have dlen: "length (dropWhile ?P q) < length q"
            using nsep Cons length_dropWhile_le [of ?P q'] by simp
          have nd2: "\<not> (c = CHR ''.'' \<and> hd (q' @ e) = CHR ''.'' \<and>
                      (tl (q' @ e) = [] \<or> IsPathSeparator (hd (tl (q' @ e)))))"
          proof (cases q'')
            case Nil
            then show ?thesis using lq Cons q' ndot by auto
          next
            case (Cons a list)
            then show ?thesis using ndd q' by auto
          qed
          have nd1: "\<not> (c = CHR ''.'' \<and> (q' @ e = [] \<or> IsPathSeparator (hd (q' @ e))))"
            using ndot hd_cs by simp
          have "clean_loop r (c # (q' @ e)) out dd =
                clean_loop r (dropWhile ?P (c # (q' @ e)))
                  (add_sep r out @ takeWhile ?P (c # (q' @ e))) dd"
            by (subst clean_loop.simps) (simp only: nsep nd1 nd2 if_False Let_def add_sep_def)
          then have "clean_loop r (q @ e) out dd =
                clean_loop r (dropWhile ?P q @ e) (add_sep r out @ takeWhile ?P q) dd"
            using dw tw by (simp add: Cons)
          then show ?thesis using IH [OF dlen] dlast by metis
        qed
      qed
    qed
  qed
qed

lemma Clean_last_elem:
  assumes "plain_elem e" "q = [] \<or> last q = CHR ''/''"
  shows "\<exists>x. filepath_Clean (q @ e) = x @ e"
proof -
  from assms(1) have e: "e \<noteq> []" "hd e \<noteq> CHR ''/''"
    by (cases e; auto simp: plain_elem_def)+
  then have ne: "(q @ e = []) = False" by simp
  show ?thesis
  proof (cases "IsPathSeparator (hd (q @ e))")
    case True
    with e have q: "q \<noteq> []" by (cases q) auto
    then have "tl q = [] \<or> last (tl q) = CHR ''/''"
      using assms(2) by (cases q) (auto split: if_splits)
    from clean_loop_last_elem [OF assms(1) this, of True "''/''" 1]
    obtain x where x: "clean_loop True (tl q @ e) ''/'' 1 = x @ e" by blast
    have tl: "tl (q @ e) = tl q @ e" using q by simp
    have xe: "(x @ e = []) = False" using e by simp
    have "filepath_Clean (q @ e) = x @ e"
      unfolding filepath_Clean_def by (simp only: ne True Let_def if_True if_False tl x xe simp_thms)
    then show ?thesis by (rule exI)
  next
    case False
    from clean_loop_last_elem [OF assms, of False "[]" 0]
    obtain x where x: "clean_loop False (q @ e) [] 0 = x @ e" by blast
    have xe: "(x @ e = []) = False" using e by simp
    have "filepath_Clean (q @ e) = x @ e"
      unfolding filepath_Clean_def by (simp only: ne False Let_def if_True if_False x xe simp_thms)
    then show ?thesis by (rule exI)
  qed
qed

lemma Join_last_elem:
  assumes "plain_elem e" "q = [] \<or> last q = CHR ''/''"
  shows "\<exists>x. filepath_Join [dir, q @ e] = x @ e"
proof (cases "dir = []")
  case True
  from assms(1) have "e \<noteq> []" by (simp add: plain_elem_def)
  then show ?thesis using True Clean_last_elem [OF assms] by simp
next
  case False
  have "\<exists>x. filepath_Clean ((dir @ ''/'' @ q) @ e) = x @ e"
    using assms by (intro Clean_last_elem) auto
  then show ?thesis using False by simp
qed

lemma Clean_dir_slash:
  "es \<noteq> [] \<Longrightarrow> \<forall>e \<in> set es. plain_elem e \<Longrightarrow>
   filepath_Dir (strings_Join es ''/'' @ CHR ''/'' # f) = strings_Join es ''/''" if "CHR ''/'' \<notin> set f"
  using that by (simp add: filepath_Dir_split Clean_plain)

lemma org_name:
  assumes "CHR ''/'' \<notin> set b" "CHR ''/'' \<notin> set x" "CHR ''.'' \<notin> set x"
  shows "strings_TrimSuffix (filepath_Base (d @ ''/'' @ b @ ''.'' @ x))
           (filepath_Ext (d @ ''/'' @ b @ ''.'' @ x)) = b"
proof -
  have "filepath_Base (d @ CHR ''/'' # (b @ ''.'' @ x)) = b @ ''.'' @ x"
    using assms by (intro filepath_Base_split) auto
  moreover have "filepath_Ext ((d @ ''/'' @ b) @ CHR ''.'' # x) = CHR ''.'' # x"
    using assms by (intro filepath_Ext_dot) auto
  ultimately show ?thesis
    using TrimSuffix_append [of b "''.'' @ x"] by simp
qed

lemma template_split:
  "prompt_template = take 742 prompt_template @ ''%s'' @ drop 744 prompt_template"
  by code_simp

lemma template_head_plain: "CHR ''%'' \<notin> set (take 742 prompt_template)"
  by code_simp

lemma template_tail_plain: "CHR ''%'' \<notin> set (drop 744 prompt_template)"
  by code_simp

lemma createPrompt_eq:
  "createPrompt text = take 742 prompt_template @ text @ drop 744 prompt_template"
proof -
  let ?h = "take 742 prompt_template" and ?t = "drop 744 prompt_template"
  have "doPrintf (?t @ []) [] = ?t @ doPrintf [] []"
    using template_tail_plain by (rule doPrintf_plain)
  then have tail: "doPrintf ?t [] = ?t" by simp
  have "createPrompt text = doPrintf (?h @ ''%s'' @ ?t) [text]"
    unfolding createPrompt_def fmt_Sprintf_def by (subst template_split) (rule refl)
  also have "\<dots> = ?h @ doPrintf (''%s'' @ ?t) [text]"
    using template_head_plain by (rule doPrintf_plain)
  also have "\<dots> = ?h @ text @ ?t"
    by (simp add: tail)
  finally show ?thesis .
qed

subsection \<open>Sequencing and the events of each function\<close>

lemma bind_ret: "bind (ret x) f = f x"
  by (simp add: bind_def ret_def split: prod.splits)

lemma bind_emit: "bind (emit e) f = (e # fst (f ()), snd (f ()))"
  by (simp add: bind_def emit_def split: prod.splits)

lemma bind_log_Println: "bind (log_Println m) f = (Log m # fst (f ()), snd (f ()))"
  by (simp add: log_Println_def bind_emit)

lemma bind_log_Printf:
  "bind (log_Printf fm args) f = (Log (fmt_Sprintf fm args) # fst (f ()), snd (f ()))"
  by (simp add: log_Printf_def bind_emit)

lemma bind_log_Fatalf: "bind (log_Fatalf fm args) f = log_Fatalf fm args"
  by (simp add: bind_def log_Fatalf_def)

lemma bind_log_Fatal: "bind (log_Fatal m) f = log_Fatal m"
  by (simp add: bind_def log_Fatal_def)

lemma bind_lift: "bind (lift r) f = (case r of Inl e \<Rightarrow> ([], Inl e) | Inr x \<Rightarrow> f x)"
  by (simp add: bind_def lift_def split: sum.splits prod.splits)

lemma fst_bind:
  "fst (bind m f) = fst m @ (case snd m of Inl e \<Rightarrow> [] | Inr x \<Rightarrow> fst (f x))"
  by (cases m) (simp add: bind_def split: sum.splits prod.splits)

lemma snd_bind:
  "snd (bind m f) = (case snd m of Inl e \<Rightarrow> Inl e | Inr x \<Rightarrow> snd (f x))"
  by (cases m) (simp add: bind_def split: sum.splits prod.splits)

lemma bind_pair: "bind (t, Inr x) f = (t @ fst (f x), snd (f x))"
  by (simp add: bind_def split: prod.splits)

lemma bind_pair_Inl: "bind (t, Inl e) f = (t, Inl e)"
  by (simp add: bind_def)

lemmas bind_simps = bind_ret bind_emit bind_log_Println bind_log_Printf bind_log_Fatalf
  bind_log_Fatal bind_lift bind_pair bind_pair_Inl


lemma loadEnv_eq:
  "loadEnv w =
     ([Log ''Loading environment variables...'', LoadDotenv] @
      (case dotenv w of
         Inl err \<Rightarrow> [Log (fmt_Sprintf (''No .env file found: %v'' @ [CHR 0x0A]) [err])]
       | Inr file \<Rightarrow> []),
      Inr (env_after_load w))"
  by (simp add: loadEnv_def env_after_load_def bind_simps ret_def split: sum.splits)

lemma getEnv_absent:
  "os_Getenv env ''OPENAI_API_KEY'' = [] \<Longrightarrow>
   getEnv env ''OPENAI_API_KEY'' = ([Log ''OPENAI_API_KEY not set in environment''], Inl (Exit 1))"
  by (simp add: getEnv_def log_Fatalf_def fmt_Sprintf_def)

lemma getEnv_present:
  "os_Getenv env ''OPENAI_API_KEY'' \<noteq> [] \<Longrightarrow>
   getEnv env ''OPENAI_API_KEY'' = ([], Inr (os_Getenv env ''OPENAI_API_KEY''))"
  by (simp add: getEnv_def ret_def)

lemma main_no_key:
  assumes "os_Getenv (env_after_load w) ''OPENAI_API_KEY'' = []"
  shows "main w flags = (fst (loadEnv w) @ [Log ''OPENAI_API_KEY not set in environment''], Inl (Exit 1))"
  using assms by (simp add: main_def loadEnv_eq bind_simps getEnv_absent)

lemma bind_assoc: "bind (bind m f) g = bind m (\<lambda>x. bind (f x) g)"
  by (cases m) (auto simp: bind_def split: sum.splits prod.splits)

lemma stage_no_key:
  "os_Getenv (env_after_load w) ''OPENAI_API_KEY'' = [] \<Longrightarrow>
   transcription_stage w flags =
     (fst (loadEnv w) @ [Log ''OPENAI_API_KEY not set in environment''], Inl (Exit 1))"
  by (simp add: transcription_stage_def loadEnv_eq bind_simps getEnv_absent)

lemma stage_key:
  assumes "os_Getenv (env_after_load w) ''OPENAI_API_KEY'' \<noteq> []"
  shows "transcription_stage w flags =
     bind (fst (loadEnv w), Inr ()) (\<lambda>_.
     bind (if AudioFilePath flags = [] \<and> TranscriptionFilePath flags = [] then
             log_Fatal ''The -file or -transcription argument is required.''
           else ret ()) (\<lambda>_.
       processTranscription w
              (flags\<lparr>OpenAIAPIKey := os_Getenv (env_after_load w) ''OPENAI_API_KEY''\<rparr>)))"
  unfolding transcription_stage_def loadEnv_eq
  by (simp add: bind_pair Let_def getEnv_present [OF assms])

lemma main_key:
  assumes "os_Getenv (env_after_load w) ''OPENAI_API_KEY'' \<noteq> []"
  shows "main w flags =
     bind (fst (loadEnv w), Inr ()) (\<lambda>_.
     bind (if AudioFilePath flags = [] \<and> TranscriptionFilePath flags = [] then
             log_Fatal ''The -file or -transcription argument is required.''
           else ret ()) (\<lambda>_.
     bind (processTranscription w
              (flags\<lparr>OpenAIAPIKey := os_Getenv (env_after_load w) ''OPENAI_API_KEY''\<rparr>))
       (\<lambda>(transcriptionText, outputFilePath).
          if PostProcessCmd flags = ''create_emacs_org_notes'' then
            createEmacsOrgNotes w transcriptionText
              (os_Getenv (env_after_load w) ''OPENAI_API_KEY'') outputFilePath
          else ret ())))"
  unfolding main_def loadEnv_eq
  by (simp add: bind_pair Let_def getEnv_present [OF assms] cong: if_cong)

lemma main_stage:
  "main w flags =
     bind (transcription_stage w flags) (\<lambda>(transcriptionText, outputFilePath).
       if PostProcessCmd flags = ''create_emacs_org_notes'' then
         createEmacsOrgNotes w transcriptionText
           (os_Getenv (env_after_load w) ''OPENAI_API_KEY'') outputFilePath
       else ret ())"
proof (cases "os_Getenv (env_after_load w) ''OPENAI_API_KEY'' = []")
  case True
  then show ?thesis
    by (simp add: main_no_key stage_no_key bind_pair_Inl)
next
  case False
  then show ?thesis
    by (simp only: main_key [OF False] stage_key [OF False] bind_assoc)
qed

lemma main_no_post:
  "PostProcessCmd flags \<noteq> ''create_emacs_org_notes'' \<Longrightarrow>
   main w flags = bind (transcription_stage w flags) (\<lambda>_. ret ())"
  by (simp add: main_stage case_prod_unfold)

lemma set_fst_bind:
  "set (fst (bind m f)) = set (fst m) \<union> (case snd m of Inl e \<Rightarrow> {} | Inr x \<Rightarrow> set (fst (f x)))"
  by (simp add: fst_bind split: sum.splits)

lemma transcribeAudio_events:
  "e \<in> set (fst (transcribeAudio w p bs k)) \<Longrightarrow> (\<exists>m. e = Log m) \<or> e = Post (whisper_request p bs k)"
  by (auto simp: transcribeAudio_def bind_simps Let_def log_Fatalf_def ret_def
      split: sum.splits if_splits)

lemma createOutputDir_events:
  "e \<in> set (fst (createOutputDir w)) \<Longrightarrow> (\<exists>m. e = Log m) \<or> e = Stat ''output'' \<or> e = Mkdir ''output''"
  by (auto simp: createOutputDir_def bind_simps Let_def log_Fatalf_def ret_def
      split: option.splits if_splits)

lemma createOutputDir_result: "snd (createOutputDir w) = Inr d \<Longrightarrow> d = ''output''"
  by (auto simp: createOutputDir_def bind_simps Let_def log_Fatalf_def ret_def
      split: option.splits if_splits)

lemma writeToFile_events:
  "e \<in> set (fst (writeToFile w p c)) \<Longrightarrow> (\<exists>m. e = Log m) \<or> e = WriteFile p c"
  by (auto simp: writeToFile_def bind_simps log_Fatalf_def log_Printf_def emit_def
      split: option.splits)

lemma readExistingTranscription_events:
  "e \<in> set (fst (readExistingTranscription w p)) \<Longrightarrow> (\<exists>m. e = Log m) \<or> e = ReadFile p"
  by (auto simp: readExistingTranscription_def bind_simps log_Fatalf_def ret_def
      split: sum.splits)

lemma readExistingTranscription_result:
  "snd (readExistingTranscription w p) = Inr text \<Longrightarrow> read_file w p = Inr text"
  by (auto simp: readExistingTranscription_def bind_simps log_Fatalf_def ret_def
      split: sum.splits)

lemma processTranscription_audio:
  "AudioFilePath config \<noteq> [] \<Longrightarrow>
   processTranscription w config =
     bind (log_Printf (''Reading audio file: %s'' @ [CHR 0x0A]) [AudioFilePath config]) (\<lambda>_.
     bind (emit (ReadFile (AudioFilePath config))) (\<lambda>_.
       case read_file w (AudioFilePath config) of
         Inl err \<Rightarrow> log_Fatalf ''Error reading audio file: %v'' [err]
       | Inr audioBytes \<Rightarrow>
           bind (log_Println ''Transcribing audio file...'') (\<lambda>_.
           bind (transcribeAudio w (AudioFilePath config) audioBytes (OpenAIAPIKey config))
             (\<lambda>transcriptionText.
           bind (createOutputDir w) (\<lambda>outputDir.
           bind (lift (generateTimestampedFilePath (now w) outputDir (output_name config)))
             (\<lambda>outputFilePath.
           bind (writeToFile w outputFilePath transcriptionText) (\<lambda>_.
           ret (transcriptionText, outputFilePath))))))))"
  unfolding processTranscription_def output_name_def Let_def by simp

lemma processTranscription_existing:
  "AudioFilePath config = [] \<Longrightarrow> TranscriptionFilePath config \<noteq> [] \<Longrightarrow>
   processTranscription w config =
     bind (readExistingTranscription w (TranscriptionFilePath config)) (\<lambda>transcriptionText.
        ret (transcriptionText, TranscriptionFilePath config))"
  by (simp add: processTranscription_def)

lemma processTranscription_audio_events:
  assumes "AudioFilePath config \<noteq> []" "e \<in> set (fst (processTranscription w config))"
  shows "(\<exists>m. e = Log m) \<or> e = ReadFile (AudioFilePath config)
     \<or> (\<exists>bs. read_file w (AudioFilePath config) = Inr bs
            \<and> e = Post (whisper_request (AudioFilePath config) bs (OpenAIAPIKey config)))
     \<or> e = Stat ''output'' \<or> e = Mkdir ''output''
     \<or> (\<exists>bs text p. read_file w (AudioFilePath config) = Inr bs
            \<and> snd (transcribeAudio w (AudioFilePath config) bs (OpenAIAPIKey config)) = Inr text
            \<and> generateTimestampedFilePath (now w) ''output'' (output_name config) = Inr p
            \<and> e = WriteFile p text)"
  using assms(2) unfolding processTranscription_audio [OF assms(1)]
  by (auto simp: set_fst_bind log_Printf_def log_Println_def emit_def log_Fatalf_def lift_def ret_def
      split: sum.splits
      dest!: transcribeAudio_events createOutputDir_events writeToFile_events
      dest: createOutputDir_result)

lemma fst_bind_ret_unit: "fst (bind m (\<lambda>_. ret ())) = fst m"
  by (simp add: fst_bind ret_def split: sum.splits)

lemma loadEnv_events: "e \<in> set (fst (loadEnv w)) \<Longrightarrow> (\<exists>m. e = Log m) \<or> e = LoadDotenv"
  by (auto simp: loadEnv_eq split: sum.splits)

lemma output_name_key [simp]: "output_name (flags\<lparr>OpenAIAPIKey := k\<rparr>) = output_name flags"
  by (simp add: output_name_def)

lemma stage_events:
  assumes "e \<in> set (fst (transcription_stage w flags))"
  shows "(\<exists>m. e = Log m) \<or> e = LoadDotenv
     \<or> (os_Getenv (env_after_load w) ''OPENAI_API_KEY'' \<noteq> []
        \<and> \<not> (AudioFilePath flags = [] \<and> TranscriptionFilePath flags = [])
        \<and> e \<in> set (fst (processTranscription w
              (flags\<lparr>OpenAIAPIKey := os_Getenv (env_after_load w) ''OPENAI_API_KEY''\<rparr>))))"
proof (cases "os_Getenv (env_after_load w) ''OPENAI_API_KEY'' = []")
  case True
  then show ?thesis using assms loadEnv_events [of e w] by (auto simp: stage_no_key)
next
  case False
  then show ?thesis using assms loadEnv_events [of e w]
    by (auto simp: stage_key set_fst_bind log_Fatal_def ret_def split: if_splits)
qed

lemma processTranscription_existing_events:
  assumes "AudioFilePath config = []" "e \<in> set (fst (processTranscription w config))"
  shows "(\<exists>m. e = Log m) \<or> e = ReadFile (TranscriptionFilePath config)"
proof (cases "TranscriptionFilePath config = []")
  case True
  then show ?thesis using assms by (simp add: processTranscription_def ret_def)
next
  case False
  then show ?thesis using assms readExistingTranscription_events [of e w "TranscriptionFilePath config"]
    by (auto simp: processTranscription_existing set_fst_bind ret_def split: sum.splits)
qed

lemma whisper_url: "url (whisper_request p bs k) = ''https://api.openai.com/v1/audio/transcriptions''"
  by (simp add: whisper_request_def)

lemma processTranscription_no_completion:
  "e \<in> set (fst (processTranscription w config)) \<Longrightarrow> \<not> is_completion_request e"
proof (cases "AudioFilePath config = []")
  case True
  assume "e \<in> set (fst (processTranscription w config))"
  from processTranscription_existing_events [OF True this] show ?thesis by auto
next
  case False
  assume "e \<in> set (fst (processTranscription w config))"
  from processTranscription_audio_events [OF False this] show ?thesis
    by (auto simp: whisper_url)
qed

lemma processTranscription_writes:
  assumes "WriteFile p c \<in> set (fst (processTranscription w config))"
  shows "AudioFilePath config \<noteq> []
     \<and> generateTimestampedFilePath (now w) ''output'' (output_name config) = Inr p
     \<and> (\<exists>bs. read_file w (AudioFilePath config) = Inr bs
          \<and> snd (transcribeAudio w (AudioFilePath config) bs (OpenAIAPIKey config)) = Inr c)"
proof (cases "AudioFilePath config = []")
  case True
  from processTranscription_existing_events [OF True assms] show ?thesis by auto
next
  case False
  from processTranscription_audio_events [OF False assms] False show ?thesis
    by (auto simp: whisper_request_def)
qed

lemma transcribeAudio_success:
  assumes "http_post w (whisper_request p bs k) = Inr resp" "\<not> IsError resp"
    "unmarshal_transcription w (Body resp) = Inr tr"
  shows "transcribeAudio w p bs k =
     ([Log ''Sending request to Whisper API...'', Post (whisper_request p bs k)], Inr (Text tr))"
  using assms by (simp add: transcribeAudio_def bind_simps Let_def ret_def)

lemma writeToFile_first: "WriteFile p c \<in> set (fst (writeToFile w p c))"
  by (simp add: writeToFile_def bind_simps)

lemma createOutputDir_ok:
  "(stat_not_exist w ''output'' \<longrightarrow> mkdir w ''output'' = None) \<Longrightarrow>
   snd (createOutputDir w) = Inr ''output''"
  by (auto simp: createOutputDir_def bind_simps Let_def ret_def)

lemma processTranscription_audio_first:
  "AudioFilePath c \<noteq> [] \<Longrightarrow>
   processTranscription w (c\<lparr>TranscriptionFilePath := x, OpenAIAPIKey := k\<rparr>) =
   processTranscription w (c\<lparr>OpenAIAPIKey := k\<rparr>)"
  by (simp add: processTranscription_def cong: if_cong sum.case_cong)

lemma createEmacsOrgNotes_empty_choices:
  assumes "http_post w (completion_request text key) = Inr resp" "\<not> IsError resp"
    "unmarshal_openai w (Body resp) = Inr ai" "Choices ai = []"
  shows "createEmacsOrgNotes w text key path =
     ([Log ''Starting post-processing with create_emacs_org_notes command...'',
       Log ''Sending request to OpenAI API...'',
       Post (completion_request text key),
       Log ''Parsing OpenAI API response...''],
      Inl (Panic ''index out of range [0] with length 0''))"
  using assms by (simp add: createEmacsOrgNotes_def bind_simps Let_def index0_def)

lemma createEmacsOrgNotes_events:
  "e \<in> set (fst (createEmacsOrgNotes w tx k path)) \<Longrightarrow>
   (\<exists>m. e = Log m) \<or> e = Post (completion_request tx k)
   \<or> (\<exists>c. e = WriteFile (generateOrgFilePath path) c)"
  unfolding createEmacsOrgNotes_def Let_def
  by (auto simp: set_fst_bind log_Println_def emit_def log_Fatalf_def lift_def index0_def
      split: sum.splits if_splits list.splits dest!: writeToFile_events)

lemma stage_existing_result:
  assumes "AudioFilePath flags = []" "snd (transcription_stage w flags) = Inr (tx, p)"
  shows "p = TranscriptionFilePath flags"
proof (cases "os_Getenv (env_after_load w) ''OPENAI_API_KEY'' = []")
  case True
  then show ?thesis using assms(2) by (simp add: stage_no_key)
next
  case False
  show ?thesis
  proof (cases "TranscriptionFilePath flags = []")
    case True
    then show ?thesis using assms
      by (simp add: stage_key [OF False] snd_bind log_Fatal_def)
  next
    case nonempty: False
    then show ?thesis using assms
      by (auto simp: stage_key [OF False] snd_bind ret_def processTranscription_existing
          split: sum.splits)
  qed
qed

lemma main_existing_events:
  assumes "AudioFilePath flags = []" "e \<in> set (fst (main w flags))"
  shows "(\<exists>m. e = Log m) \<or> e = LoadDotenv \<or> e = ReadFile (TranscriptionFilePath flags)
     \<or> (PostProcessCmd flags = ''create_emacs_org_notes''
        \<and> ((\<exists>tx k. e = Post (completion_request tx k))
           \<or> (\<exists>c. e = WriteFile (generateOrgFilePath (TranscriptionFilePath flags)) c)))"
proof -
  from assms(2) consider
    (stage) "e \<in> set (fst (transcription_stage w flags))"
  | (post) tx p where "snd (transcription_stage w flags) = Inr (tx, p)"
      "PostProcessCmd flags = ''create_emacs_org_notes''"
      "e \<in> set (fst (createEmacsOrgNotes w tx (os_Getenv (env_after_load w) ''OPENAI_API_KEY'') p))"
    by (auto simp: main_stage set_fst_bind ret_def split: sum.splits if_splits)
  then show ?thesis
  proof cases
    case stage
    from stage_events [OF this] consider
      (plain) "(\<exists>m. e = Log m) \<or> e = LoadDotenv"
    | (proc) "e \<in> set (fst (processTranscription w
              (flags\<lparr>OpenAIAPIKey := os_Getenv (env_after_load w) ''OPENAI_API_KEY''\<rparr>)))"
      by blast
    then show ?thesis
    proof cases
      case plain
      then show ?thesis by blast
    next
      case proc
      have "AudioFilePath (flags\<lparr>OpenAIAPIKey := os_Getenv (env_after_load w) ''OPENAI_API_KEY''\<rparr>) = []"
        using assms(1) by simp
      from processTranscription_existing_events [OF this proc]
      have "(\<exists>m. e = Log m) \<or> e = ReadFile (TranscriptionFilePath flags)" by simp
      then show ?thesis by blast
    qed
  next
    case post
    from stage_existing_result [OF assms(1) post(1)] have "p = TranscriptionFilePath flags" .
    with createEmacsOrgNotes_events [OF post(3)] post(2) show ?thesis by auto
  qed
qed

section \<open>The claims\<close>

text \<open>
  C1. Claimed: a completion response that decodes with an empty choices list is handled as
  a logged, terminal decoding error. The code indexes \<open>Choices[0]\<close> without a guard: in
  the concrete world, with the flags \<open>-transcription t.txt -post create_emacs_org_notes\<close>,
  the run ends in a runtime panic right after the line \<open>Parsing OpenAI API response...\<close>;
  no error line is logged by the program and no file is written.
\<close>

theorem empty_choices_panics:
  "snd (main demo_world flags_notes) = Inl (Panic ''index out of range [0] with length 0'')
   \<and> last (fst (main demo_world flags_notes)) = Log ''Parsing OpenAI API response...''
   \<and> filter is_file_op (fst (main demo_world flags_notes)) = [LoadDotenv, ReadFile ''t.txt'']"
  by code_simp

text \<open>
  C2, as amended. When both paths are empty the program ends with status 1 before the
  transcription stage: it performs no file operation other than loading \<open>.env\<close> and no
  request, and when the credential is present its last line is the usage message. When
  the audio path is set, the transcription path does not matter (the audio path takes
  precedence), and with the credential present the audio file is read.
\<close>

theorem input_path_check:
  "(AudioFilePath flags = [] \<and> TranscriptionFilePath flags = [] \<longrightarrow>
      snd (main w flags) = Inl (Exit 1)
      \<and> (\<forall>e \<in> set (fst (main w flags)). (is_file_op e \<longrightarrow> e = LoadDotenv) \<and> \<not> is_net_op e)
      \<and> (os_Getenv (env_after_load w) ''OPENAI_API_KEY'' \<noteq> [] \<longrightarrow>
            last (fst (main w flags)) = Log ''The -file or -transcription argument is required.''))
   \<and> (AudioFilePath flags \<noteq> [] \<longrightarrow>
        main w (flags\<lparr>TranscriptionFilePath := x\<rparr>) = main w flags
        \<and> (os_Getenv (env_after_load w) ''OPENAI_API_KEY'' \<noteq> [] \<longrightarrow>
              ReadFile (AudioFilePath flags) \<in> set (fst (main w flags))))"
proof (intro conjI impI)
  assume e: "AudioFilePath flags = [] \<and> TranscriptionFilePath flags = []"
  have m: "main w flags =
      (if os_Getenv (env_after_load w) ''OPENAI_API_KEY'' = []
       then (fst (loadEnv w) @ [Log ''OPENAI_API_KEY not set in environment''], Inl (Exit 1))
       else (fst (loadEnv w) @ [Log ''The -file or -transcription argument is required.''], Inl (Exit 1)))"
    using e by (simp add: main_no_key main_key bind_simps log_Fatal_def)
  show "snd (main w flags) = Inl (Exit 1)" by (simp add: m)
  show "\<forall>e \<in> set (fst (main w flags)). (is_file_op e \<longrightarrow> e = LoadDotenv) \<and> \<not> is_net_op e"
    by (auto simp: m dest: loadEnv_events)
  show "last (fst (main w flags)) = Log ''The -file or -transcription argument is required.''"
    if "os_Getenv (env_after_load w) ''OPENAI_API_KEY'' \<noteq> []"
    using that by (simp add: m)
next
  assume a: "AudioFilePath flags \<noteq> []"
  show "main w (flags\<lparr>TranscriptionFilePath := x\<rparr>) = main w flags"
  proof (cases "os_Getenv (env_after_load w) ''OPENAI_API_KEY'' = []")
    case True
    then show ?thesis by (simp add: main_no_key)
  next
    case False
    then show ?thesis using a by (simp add: main_key processTranscription_audio_first)
  qed
  show "ReadFile (AudioFilePath flags) \<in> set (fst (main w flags))"
    if k: "os_Getenv (env_after_load w) ''OPENAI_API_KEY'' \<noteq> []"
    unfolding main_key [OF k] using a
    by (simp add: bind_simps processTranscription_audio set_fst_bind log_Printf_def emit_def)
qed

theorem input_path_check_witness:
  "AudioFilePath flags_none = [] \<and> TranscriptionFilePath flags_none = []
   \<and> os_Getenv (env_after_load demo_world) ''OPENAI_API_KEY'' \<noteq> []
   \<and> snd (main demo_world flags_none) = Inl (Exit 1)
   \<and> last (fst (main demo_world flags_none)) =
       Log ''The -file or -transcription argument is required.''
   \<and> AudioFilePath flags_both \<noteq> []
   \<and> main demo_world (flags_both\<lparr>TranscriptionFilePath := []\<rparr>) = main demo_world flags_both
   \<and> ReadFile (AudioFilePath flags_both) \<in> set (fst (main demo_world flags_both))"
proof -
  have h: "AudioFilePath flags_none = [] \<and> TranscriptionFilePath flags_none = []"
    by (simp add: flags_none_def)
  have k: "os_Getenv (env_after_load demo_world) ''OPENAI_API_KEY'' \<noteq> []"
    by code_simp
  have a: "AudioFilePath flags_both \<noteq> []"
    by (simp add: flags_both_def)
  from input_path_check [of flags_none demo_world] h k
  have 1: "snd (main demo_world flags_none) = Inl (Exit 1)"
    "last (fst (main demo_world flags_none)) =
       Log ''The -file or -transcription argument is required.''"
    by blast+
  from input_path_check [of flags_both demo_world "[]"] a k
  have 2: "main demo_world (flags_both\<lparr>TranscriptionFilePath := []\<rparr>) = main demo_world flags_both"
    "ReadFile (AudioFilePath flags_both) \<in> set (fst (main demo_world flags_both))"
    by blast+
  from h k a 1 2 show ?thesis by (intro conjI) (erule conjunct1 conjunct2 | assumption)+
qed

text \<open>
  The claim as stated fails when both paths are set: the run reads the audio file,
  transcribes it, writes the output and ends with status 0.
\<close>

theorem both_paths_set_counterexample:
  "AudioFilePath flags_both \<noteq> [] \<and> TranscriptionFilePath flags_both \<noteq> []
   \<and> snd (main demo_world flags_both) = Inr ()
   \<and> ReadFile ''a.mp3'' \<in> set (fst (main demo_world flags_both))
   \<and> WriteFile ''output/transcription_20240307_090500.txt'' ''hello world''
       \<in> set (fst (main demo_world flags_both))"
  by code_simp

text \<open>
  C3. For every output directory, base file name and instant, the generated path is the
  directory joined (\<open>filepath.Join\<close>) with the stem of the base name, an underscore, the
  formatted instant and the extension of the base name, where stem and extension together
  are the base name. When the directory is a sequence of plain elements (as the program's
  \<open>output\<close> is) and the base name has no separator, that join is the literal
  \<open>dir/stem_timestamp.ext\<close>. The formatted instant is \<open>YYYYMMDD_HHMMSS\<close>: four digits of the
  year, two each of month and day, an underscore, two each of hour, minute and second,
  for every instant whose year is below 10000 and whose other fields are below 100. The
  result is a function of the instant.
\<close>

theorem generateTimestampedFilePath_shape:
  "generateTimestampedFilePath t dir b =
     Inr (filepath_Join [dir, stem b @ ''_'' @ Format_20060102_150405 t @ filepath_Ext b])
   \<and> stem b @ filepath_Ext b = b
   \<and> (es \<noteq> [] \<and> (\<forall>e \<in> set es. plain_elem e) \<and> CHR ''/'' \<notin> set b \<longrightarrow>
      generateTimestampedFilePath t (strings_Join es ''/'') b =
        Inr (strings_Join es ''/'' @ ''/'' @ stem b @ ''_'' @ Format_20060102_150405 t @ filepath_Ext b))
   \<and> (Year t < 10000 \<and> Month t < 100 \<and> Day t < 100 \<and> Hour t < 100 \<and> Minute t < 100
        \<and> Second t < 100 \<longrightarrow>
      Format_20060102_150405 t =
        [digit (Year t div 1000), digit (Year t div 100 mod 10),
         digit (Year t div 10 mod 10), digit (Year t mod 10),
         digit (Month t div 10), digit (Month t mod 10),
         digit (Day t div 10), digit (Day t mod 10),
         CHR ''_'',
         digit (Hour t div 10), digit (Hour t mod 10),
         digit (Minute t div 10), digit (Minute t mod 10),
         digit (Second t div 10), digit (Second t mod 10)])"
proof (intro conjI impI)
  show "generateTimestampedFilePath t dir b =
     Inr (filepath_Join [dir, stem b @ ''_'' @ Format_20060102_150405 t @ filepath_Ext b])"
    by (rule generateTimestampedFilePath_eq)
  show "stem b @ filepath_Ext b = b" by (rule stem_Ext)
next
  assume "es \<noteq> [] \<and> (\<forall>e \<in> set es. plain_elem e) \<and> CHR ''/'' \<notin> set b"
  then show "generateTimestampedFilePath t (strings_Join es ''/'') b =
        Inr (strings_Join es ''/'' @ ''/'' @ stem b @ ''_'' @ Format_20060102_150405 t @ filepath_Ext b)"
    using Join_plain_dir [OF _ _ stamped_plain, of es b t]
    by (simp add: generateTimestampedFilePath_eq)
next
  assume "Year t < 10000 \<and> Month t < 100 \<and> Day t < 100 \<and> Hour t < 100 \<and> Minute t < 100
        \<and> Second t < 100"
  then show "Format_20060102_150405 t =
        [digit (Year t div 1000), digit (Year t div 100 mod 10),
         digit (Year t div 10 mod 10), digit (Year t mod 10),
         digit (Month t div 10), digit (Month t mod 10),
         digit (Day t div 10), digit (Day t mod 10),
         CHR ''_'',
         digit (Hour t div 10), digit (Hour t mod 10),
         digit (Minute t div 10), digit (Minute t mod 10),
         digit (Second t div 10), digit (Second t mod 10)]"
    by (intro Format_layout) simp_all
qed

theorem generateTimestampedFilePath_shape_witness:
  "plain_elem ''output'' \<and> CHR ''/'' \<notin> set ''transcription.txt''
   \<and> Year \<lparr>Year = 2024, Month = 3, Day = 7, Hour = 9, Minute = 5, Second = 0\<rparr> < 10000
   \<and> Format_20060102_150405
        \<lparr>Year = 2024, Month = 3, Day = 7, Hour = 9, Minute = 5, Second = 0\<rparr> = ''20240307_090500''
   \<and> generateTimestampedFilePath
        \<lparr>Year = 2024, Month = 3, Day = 7, Hour = 9, Minute = 5, Second = 0\<rparr>
        ''output'' ''transcription.txt'' = Inr ''output/transcription_20240307_090500.txt''"
proof -
  let ?t = "\<lparr>Year = 2024, Month = 3, Day = 7, Hour = 9, Minute = 5, Second = 0\<rparr>"
  have h: "[''output''] \<noteq> [] \<and> (\<forall>e \<in> set [''output'']. plain_elem e)
           \<and> CHR ''/'' \<notin> set ''transcription.txt''"
    by (simp add: plain_elem_def)
  have rg: "Year ?t < 10000 \<and> Month ?t < 100 \<and> Day ?t < 100 \<and> Hour ?t < 100 \<and> Minute ?t < 100
        \<and> Second ?t < 100"
    by simp
  note inst = generateTimestampedFilePath_shape [of ?t "''output''" "''transcription.txt''" "[''output'']"]
  from inst rg
  have f: "Format_20060102_150405 ?t =
        [digit (Year ?t div 1000), digit (Year ?t div 100 mod 10),
         digit (Year ?t div 10 mod 10), digit (Year ?t mod 10),
         digit (Month ?t div 10), digit (Month ?t mod 10),
         digit (Day ?t div 10), digit (Day ?t mod 10),
         CHR ''_'',
         digit (Hour ?t div 10), digit (Hour ?t mod 10),
         digit (Minute ?t div 10), digit (Minute ?t mod 10),
         digit (Second ?t div 10), digit (Second ?t mod 10)]"
    by blast
  have fv: "[digit (Year ?t div 1000), digit (Year ?t div 100 mod 10),
         digit (Year ?t div 10 mod 10), digit (Year ?t mod 10),
         digit (Month ?t div 10), digit (Month ?t mod 10),
         digit (Day ?t div 10), digit (Day ?t mod 10),
         CHR ''_'',
         digit (Hour ?t div 10), digit (Hour ?t mod 10),
         digit (Minute ?t div 10), digit (Minute ?t mod 10),
         digit (Second ?t div 10), digit (Second ?t mod 10)] = ''20240307_090500''"
    by code_simp
  note fmt = f [unfolded fv]
  have st: "stem ''transcription.txt'' = ''transcription''"
    and ex: "filepath_Ext ''transcription.txt'' = ''.txt''"
    by code_simp+
  have d: "strings_Join [''output''] ''/'' = ''output''" by simp
  from inst h
  have g: "generateTimestampedFilePath ?t (strings_Join [''output''] ''/'') ''transcription.txt'' =
        Inr (strings_Join [''output''] ''/'' @ ''/'' @ stem ''transcription.txt'' @ ''_'' @
             Format_20060102_150405 ?t @ filepath_Ext ''transcription.txt'')"
    by blast
  note r = g [unfolded fmt st ex d]
  from h rg fmt r show ?thesis by simp
qed

text \<open>
  C4. For a reference path made of a directory, a separator, a base name and an extension
  (a dot followed by characters that are neither dots nor separators), the notes path is
  the cleaned directory joined with the base name and \<open>_emacs_org_notes.org\<close>; when the
  directory is a sequence of plain elements, relative or starting at the root, this is
  literally \<open>dir/base_emacs_org_notes.org\<close>. In particular \<open>a/b.txt\<close> gives
  \<open>a/b_emacs_org_notes.org\<close>.
\<close>

theorem generateOrgFilePath_shape:
  "(CHR ''/'' \<notin> set b \<and> CHR ''/'' \<notin> set x \<and> CHR ''.'' \<notin> set x \<longrightarrow>
      generateOrgFilePath (d @ ''/'' @ b @ ''.'' @ x) =
        filepath_Join [filepath_Clean (d @ ''/''), b @ ''_emacs_org_notes.org'']
      \<and> (es \<noteq> [] \<and> (\<forall>e \<in> set es. plain_elem e) \<longrightarrow>
          generateOrgFilePath (strings_Join es ''/'' @ ''/'' @ b @ ''.'' @ x) =
            strings_Join es ''/'' @ ''/'' @ b @ ''_emacs_org_notes.org''
          \<and> generateOrgFilePath (''/'' @ strings_Join es ''/'' @ ''/'' @ b @ ''.'' @ x) =
            ''/'' @ strings_Join es ''/'' @ ''/'' @ b @ ''_emacs_org_notes.org''))
   \<and> generateOrgFilePath ''a/b.txt'' = ''a/b_emacs_org_notes.org''"
proof -
  have inst: "generateOrgFilePath ''a/b.txt'' = ''a/b_emacs_org_notes.org''"
    by code_simp
  have gen: "generateOrgFilePath (d @ ''/'' @ b @ ''.'' @ x) =
        filepath_Join [filepath_Clean (d @ ''/''), b @ ''_emacs_org_notes.org'']"
    if h: "CHR ''/'' \<notin> set b" "CHR ''/'' \<notin> set x" "CHR ''.'' \<notin> set x" for d
  proof -
    have "filepath_Dir (d @ CHR ''/'' # (b @ ''.'' @ x)) = filepath_Clean (d @ ''/'')"
      using h by (intro filepath_Dir_split) auto
    then show ?thesis
      using org_name [OF h, of d] by (simp add: generateOrgFilePath_def Let_def Sprintf_org)
  qed
  have plain: "generateOrgFilePath (strings_Join es ''/'' @ ''/'' @ b @ ''.'' @ x) =
            strings_Join es ''/'' @ ''/'' @ b @ ''_emacs_org_notes.org''
          \<and> generateOrgFilePath (''/'' @ strings_Join es ''/'' @ ''/'' @ b @ ''.'' @ x) =
            ''/'' @ strings_Join es ''/'' @ ''/'' @ b @ ''_emacs_org_notes.org''"
    if h: "CHR ''/'' \<notin> set b" "CHR ''/'' \<notin> set x" "CHR ''.'' \<notin> set x"
      and es: "es \<noteq> []" "\<forall>e \<in> set es. plain_elem e"
  proof
    have "b @ ''_emacs_org_notes.org'' \<noteq> ''.'' \<and> b @ ''_emacs_org_notes.org'' \<noteq> ''..''"
      by (rule not_dots [of "CHR ''_''"]) simp_all
    then have p: "plain_elem (b @ ''_emacs_org_notes.org'')"
      using h(1) by (simp add: plain_elem_def)
    show "generateOrgFilePath (strings_Join es ''/'' @ ''/'' @ b @ ''.'' @ x) =
            strings_Join es ''/'' @ ''/'' @ b @ ''_emacs_org_notes.org''"
      using gen [OF h, of "strings_Join es ''/''"] Clean_plain(2) [OF es] Join_plain_dir [OF es p]
      by simp
    show "generateOrgFilePath (''/'' @ strings_Join es ''/'' @ ''/'' @ b @ ''.'' @ x) =
            ''/'' @ strings_Join es ''/'' @ ''/'' @ b @ ''_emacs_org_notes.org''"
      using gen [OF h, of "''/'' @ strings_Join es ''/''"] Clean_rooted_plain(2) [OF es]
        Join_rooted_dir [OF es p]
      by simp
  qed
  show ?thesis
  proof (intro conjI impI; (elim conjE)?)
    assume "CHR ''/'' \<notin> set b" "CHR ''/'' \<notin> set x" "CHR ''.'' \<notin> set x"
    then show "generateOrgFilePath (d @ ''/'' @ b @ ''.'' @ x) =
        filepath_Join [filepath_Clean (d @ ''/''), b @ ''_emacs_org_notes.org'']"
      by (rule gen)
  next
    assume "CHR ''/'' \<notin> set b" "CHR ''/'' \<notin> set x" "CHR ''.'' \<notin> set x"
      "es \<noteq> []" "\<forall>e \<in> set es. plain_elem e"
    then show "generateOrgFilePath (strings_Join es ''/'' @ ''/'' @ b @ ''.'' @ x) =
            strings_Join es ''/'' @ ''/'' @ b @ ''_emacs_org_notes.org''"
      by (rule plain [THEN conjunct1])
  next
    assume "CHR ''/'' \<notin> set b" "CHR ''/'' \<notin> set x" "CHR ''.'' \<notin> set x"
      "es \<noteq> []" "\<forall>e \<in> set es. plain_elem e"
    then show "generateOrgFilePath (''/'' @ strings_Join es ''/'' @ ''/'' @ b @ ''.'' @ x) =
            ''/'' @ strings_Join es ''/'' @ ''/'' @ b @ ''_emacs_org_notes.org''"
      by (rule plain [THEN conjunct2])
  next
    show "generateOrgFilePath ''a/b.txt'' = ''a/b_emacs_org_notes.org''" by (rule inst)
  qed
qed

theorem generateOrgFilePath_shape_witness:
  "CHR ''/'' \<notin> set ''x_20240307_090500'' \<and> CHR ''/'' \<notin> set ''txt'' \<and> CHR ''.'' \<notin> set ''txt''
   \<and> plain_elem ''output''
   \<and> generateOrgFilePath ''output/x_20240307_090500.txt'' =
       ''output/x_20240307_090500_emacs_org_notes.org''"
proof -
  have h: "CHR ''/'' \<notin> set ''x_20240307_090500'' \<and> CHR ''/'' \<notin> set ''txt'' \<and> CHR ''.'' \<notin> set ''txt''"
    and es: "[''output''] \<noteq> [] \<and> (\<forall>e \<in> set [''output'']. plain_elem e)"
    by (simp_all add: plain_elem_def)
  from generateOrgFilePath_shape [of "''x_20240307_090500''" "''txt''" "''output''" "[''output'']"] h es
  have "generateOrgFilePath (strings_Join [''output''] ''/'' @ ''/'' @ ''x_20240307_090500'' @ ''.'' @ ''txt'') =
        strings_Join [''output''] ''/'' @ ''/'' @ ''x_20240307_090500'' @ ''_emacs_org_notes.org''"
    by blast
  then have "generateOrgFilePath ''output/x_20240307_090500.txt'' =
       ''output/x_20240307_090500_emacs_org_notes.org''"
    by simp
  with h es show ?thesis by simp
qed

text \<open>
  C5. When the post-process directive is anything other than \<open>create_emacs_org_notes\<close>
  (the empty string included), the run is exactly the run up to the end of the
  transcription stage: no event is a request to the completion endpoint, and the only
  file that can be written is the timestamped transcription output of the audio branch.
\<close>

theorem no_directive_no_notes:
  "PostProcessCmd flags \<noteq> ''create_emacs_org_notes'' \<longrightarrow>
     main w flags = bind (transcription_stage w flags) (\<lambda>_. ret ())
     \<and> (\<forall>e \<in> set (fst (main w flags)). \<not> is_completion_request e)
     \<and> (\<forall>p c. WriteFile p c \<in> set (fst (main w flags)) \<longrightarrow>
           AudioFilePath flags \<noteq> []
           \<and> generateTimestampedFilePath (now w) ''output'' (output_name flags) = Inr p)"
proof (intro impI conjI ballI allI)
  assume np: "PostProcessCmd flags \<noteq> ''create_emacs_org_notes''"
  show m: "main w flags = bind (transcription_stage w flags) (\<lambda>_. ret ())"
    using np by (rule main_no_post)
  have tr: "fst (main w flags) = fst (transcription_stage w flags)"
    by (simp only: m fst_bind_ret_unit)
  {
    fix e assume "e \<in> set (fst (main w flags))"
    then have "e \<in> set (fst (transcription_stage w flags))" by (simp only: tr)
    from stage_events [OF this] show "\<not> is_completion_request e"
      by (auto dest: processTranscription_no_completion)
  }
  {
    fix p c assume "WriteFile p c \<in> set (fst (main w flags))"
    then have "WriteFile p c \<in> set (fst (transcription_stage w flags))" by (simp only: tr)
    from stage_events [OF this]
    have "WriteFile p c \<in> set (fst (processTranscription w
              (flags\<lparr>OpenAIAPIKey := os_Getenv (env_after_load w) ''OPENAI_API_KEY''\<rparr>)))"
      by auto
    from processTranscription_writes [OF this]
    show "AudioFilePath flags \<noteq> []"
      and "generateTimestampedFilePath (now w) ''output'' (output_name flags) = Inr p"
      by simp_all
  }
qed

theorem no_directive_no_notes_witness:
  "PostProcessCmd flags_audio \<noteq> ''create_emacs_org_notes''
   \<and> main demo_world flags_audio = bind (transcription_stage demo_world flags_audio) (\<lambda>_. ret ())
   \<and> \<not> is_completion_request (last (butlast (butlast (fst (main demo_world flags_audio)))))
   \<and> last (butlast (fst (main demo_world flags_audio))) =
       WriteFile ''output/transcription_20240307_090500.txt'' ''hello world''"
proof -
  have h: "PostProcessCmd flags_audio \<noteq> ''create_emacs_org_notes''"
    by (simp add: flags_audio_def)
  from no_directive_no_notes [of flags_audio demo_world] h
  have 1: "main demo_world flags_audio = bind (transcription_stage demo_world flags_audio) (\<lambda>_. ret ())"
    and 2: "\<forall>e \<in> set (fst (main demo_world flags_audio)). \<not> is_completion_request e"
    by blast+
  have 3: "last (butlast (butlast (fst (main demo_world flags_audio))))
           \<in> set (fst (main demo_world flags_audio))"
    by code_simp
  have 4: "last (butlast (fst (main demo_world flags_audio))) =
       WriteFile ''output/transcription_20240307_090500.txt'' ''hello world''"
    by code_simp
  from 2 3 have "\<not> is_completion_request (last (butlast (butlast (fst (main demo_world flags_audio)))))"
    by blast
  with h 1 4 show ?thesis by (intro conjI)
qed

text \<open>
  C6. When the audio file is read, the request to the transcription endpoint returns a
  success status and its body decodes, then every write of the transcription stage has
  the decoded \<open>text\<close> field as its content, unchanged, and the timestamped path as its
  target; the write happens whenever the output directory exists or can be created, and
  the text handed to the next stage is the same string.
\<close>

theorem transcription_written_verbatim:
  "AudioFilePath config \<noteq> []
   \<and> read_file w (AudioFilePath config) = Inr bs
   \<and> http_post w (whisper_request (AudioFilePath config) bs (OpenAIAPIKey config)) = Inr resp
   \<and> \<not> IsError resp
   \<and> unmarshal_transcription w (Body resp) = Inr tr \<longrightarrow>
     snd (transcribeAudio w (AudioFilePath config) bs (OpenAIAPIKey config)) = Inr (Text tr)
     \<and> (\<forall>p c. WriteFile p c \<in> set (fst (processTranscription w config)) \<longrightarrow>
           c = Text tr
           \<and> generateTimestampedFilePath (now w) ''output'' (output_name config) = Inr p)
     \<and> ((stat_not_exist w ''output'' \<longrightarrow> mkdir w ''output'' = None) \<longrightarrow>
           (\<exists>p. generateTimestampedFilePath (now w) ''output'' (output_name config) = Inr p
              \<and> WriteFile p (Text tr) \<in> set (fst (processTranscription w config))))
     \<and> (\<forall>text p. snd (processTranscription w config) = Inr (text, p) \<longrightarrow> text = Text tr)"
proof (intro impI, elim conjE, intro conjI allI impI)
  assume au: "AudioFilePath config \<noteq> []"
    and rd: "read_file w (AudioFilePath config) = Inr bs"
    and hp: "http_post w (whisper_request (AudioFilePath config) bs (OpenAIAPIKey config)) = Inr resp"
      "\<not> IsError resp" "unmarshal_transcription w (Body resp) = Inr tr"
  note tra = transcribeAudio_success [OF hp]
  show "snd (transcribeAudio w (AudioFilePath config) bs (OpenAIAPIKey config)) = Inr (Text tr)"
    by (simp add: tra)
  {
    fix p c assume "WriteFile p c \<in> set (fst (processTranscription w config))"
    from processTranscription_writes [OF this]
    show "c = Text tr"
      and "generateTimestampedFilePath (now w) ''output'' (output_name config) = Inr p"
      by (auto simp: rd tra)
  }
  {
    assume d: "stat_not_exist w ''output'' \<longrightarrow> mkdir w ''output'' = None"
    obtain p where pth: "generateTimestampedFilePath (now w) ''output'' (output_name config) = Inr p"
      by (simp add: generateTimestampedFilePath_eq)
    obtain t where cd: "createOutputDir w = (t, Inr ''output'')"
      using createOutputDir_ok [OF d] by (cases "createOutputDir w") auto
    have "WriteFile p (Text tr) \<in> set (fst (processTranscription w config))"
      unfolding processTranscription_audio [OF au]
      using writeToFile_first [of p "Text tr" w]
      by (simp add: set_fst_bind log_Printf_def log_Println_def emit_def rd tra cd pth lift_def)
    with pth show "\<exists>p. generateTimestampedFilePath (now w) ''output'' (output_name config) = Inr p
              \<and> WriteFile p (Text tr) \<in> set (fst (processTranscription w config))"
      by blast
  }
  {
    fix tx p assume "snd (processTranscription w config) = Inr (tx, p)"
    then show "tx = Text tr"
      unfolding processTranscription_audio [OF au]
      by (auto simp: snd_bind log_Printf_def log_Println_def emit_def rd tra lift_def ret_def
          split: sum.splits)
  }
qed

theorem transcription_written_verbatim_witness:
  "AudioFilePath (flags_audio\<lparr>OpenAIAPIKey := ''sk-test''\<rparr>) \<noteq> []
   \<and> read_file demo_world ''a.mp3'' = Inr ''RIFF''
   \<and> http_post demo_world (whisper_request ''a.mp3'' ''RIFF'' ''sk-test'') = Inr whisper_ok
   \<and> \<not> IsError whisper_ok
   \<and> unmarshal_transcription demo_world (Body whisper_ok) = Inr \<lparr>Text = ''hello world''\<rparr>
   \<and> mkdir demo_world ''output'' = None
   \<and> snd (transcribeAudio demo_world ''a.mp3'' ''RIFF'' ''sk-test'') = Inr ''hello world''
   \<and> WriteFile ''output/transcription_20240307_090500.txt'' ''hello world''
       \<in> set (fst (processTranscription demo_world (flags_audio\<lparr>OpenAIAPIKey := ''sk-test''\<rparr>)))"
proof -
  let ?c = "flags_audio\<lparr>OpenAIAPIKey := ''sk-test''\<rparr>"
  have c: "AudioFilePath ?c = ''a.mp3''" "OpenAIAPIKey ?c = ''sk-test''"
    by (simp_all add: flags_audio_def)
  have h1: "AudioFilePath ?c \<noteq> []" by (simp add: flags_audio_def)
  have h2: "read_file demo_world ''a.mp3'' = Inr ''RIFF''" by code_simp
  have h3: "http_post demo_world (whisper_request ''a.mp3'' ''RIFF'' ''sk-test'') = Inr whisper_ok"
    by code_simp
  have h4: "\<not> IsError whisper_ok" by code_simp
  have h5: "unmarshal_transcription demo_world (Body whisper_ok) = Inr \<lparr>Text = ''hello world''\<rparr>"
    by code_simp
  have d: "mkdir demo_world ''output'' = None" by code_simp
  have g: "generateTimestampedFilePath (now demo_world) ''output'' (output_name ?c) =
           Inr ''output/transcription_20240307_090500.txt''"
    by code_simp
  from transcription_written_verbatim
    [where config = ?c and w = demo_world and bs = "''RIFF''" and resp = whisper_ok
       and tr = "\<lparr>Text = ''hello world''\<rparr>"]
    h1 h2 h3 h4 h5
  have 1: "snd (transcribeAudio demo_world (AudioFilePath ?c) ''RIFF'' (OpenAIAPIKey ?c)) =
           Inr (Text \<lparr>Text = ''hello world''\<rparr>)"
    and 2: "(stat_not_exist demo_world ''output'' \<longrightarrow> mkdir demo_world ''output'' = None) \<longrightarrow>
           (\<exists>p. generateTimestampedFilePath (now demo_world) ''output'' (output_name ?c) = Inr p
              \<and> WriteFile p (Text \<lparr>Text = ''hello world''\<rparr>)
                  \<in> set (fst (processTranscription demo_world ?c)))"
    unfolding c by blast+
  from 1 have t1: "snd (transcribeAudio demo_world ''a.mp3'' ''RIFF'' ''sk-test'') = Inr ''hello world''"
    by (simp add: c)
  from 2 d g have t2: "WriteFile ''output/transcription_20240307_090500.txt'' ''hello world''
       \<in> set (fst (processTranscription demo_world ?c))"
    by auto
  from h1 h2 h3 h4 h5 d t1 t2 show ?thesis by (intro conjI)
qed

text \<open>
  C7, as amended. When the key is unset or empty after \<open>loadEnv\<close> has loaded \<open>.env\<close>, the
  run ends with status 1 and the line \<open>OPENAI_API_KEY not set in environment\<close>; the only
  file operation it has performed is loading \<open>.env\<close>, and it has sent no request.
\<close>

theorem missing_credential_aborts:
  "os_Getenv (env_after_load w) ''OPENAI_API_KEY'' = [] \<longrightarrow>
     snd (main w flags) = Inl (Exit 1)
     \<and> last (fst (main w flags)) = Log ''OPENAI_API_KEY not set in environment''
     \<and> (\<forall>e \<in> set (fst (main w flags)). (is_file_op e \<longrightarrow> e = LoadDotenv) \<and> \<not> is_net_op e)"
  by (auto simp: main_no_key loadEnv_eq split: sum.splits)

theorem missing_credential_aborts_witness:
  "os_Getenv (env_after_load world_no_key) ''OPENAI_API_KEY'' = []
   \<and> snd (main world_no_key flags_audio) = Inl (Exit 1)
   \<and> last (fst (main world_no_key flags_audio)) = Log ''OPENAI_API_KEY not set in environment''"
proof -
  have h: "os_Getenv (env_after_load world_no_key) ''OPENAI_API_KEY'' = []"
    by code_simp
  from missing_credential_aborts [of world_no_key flags_audio] h
  have "snd (main world_no_key flags_audio) = Inl (Exit 1)"
    "last (fst (main world_no_key flags_audio)) = Log ''OPENAI_API_KEY not set in environment''"
    by blast+
  with h show ?thesis by (intro conjI)
qed

text \<open>
  The claim as stated fails: with the key absent the run has already opened and read
  \<open>.env\<close>, which is a file operation, when it aborts.
\<close>

theorem dotenv_read_counterexample:
  "os_Getenv (environ world_no_key) ''OPENAI_API_KEY'' = []
   \<and> os_Getenv (env_after_load world_no_key) ''OPENAI_API_KEY'' = []
   \<and> fst (main world_no_key flags_audio) =
       [Log ''Loading environment variables...'', LoadDotenv,
        Log ''OPENAI_API_KEY not set in environment'']
   \<and> is_file_op LoadDotenv"
  by code_simp

text \<open>
  C8. The timestamped-path generator is total: for every base file name it returns a path
  and the index of the stem slice lies between 0 and the length of the name. For a base
  name without a dot the joined name is the base name, an underscore and the timestamp,
  and the returned path ends with that timestamp: no extension follows it.
\<close>

theorem generateTimestampedFilePath_total:
  "(\<exists>p. generateTimestampedFilePath t dir b = Inr p)
   \<and> 0 \<le> int (length b) - int (length (filepath_Ext b))
   \<and> int (length b) - int (length (filepath_Ext b)) \<le> int (length b)
   \<and> (CHR ''.'' \<notin> set b \<longrightarrow>
        generateTimestampedFilePath t dir b =
          Inr (filepath_Join [dir, b @ ''_'' @ Format_20060102_150405 t])
        \<and> (\<exists>x. generateTimestampedFilePath t dir b = Inr (x @ ''_'' @ Format_20060102_150405 t)))"
proof -
  let ?ts = "Format_20060102_150405 t"
  have tot: "\<exists>p. generateTimestampedFilePath t dir b = Inr p"
    by (simp add: generateTimestampedFilePath_eq)
  have rng: "0 \<le> int (length b) - int (length (filepath_Ext b))"
    "int (length b) - int (length (filepath_Ext b)) \<le> int (length b)"
    using length_filepath_Ext [of b] by simp_all
  have nodot: "CHR ''.'' \<notin> set b \<longrightarrow>
     generateTimestampedFilePath t dir b = Inr (filepath_Join [dir, b @ ''_'' @ ?ts])
     \<and> (\<exists>x. generateTimestampedFilePath t dir b = Inr (x @ ''_'' @ ?ts))"
  proof
    assume that: "CHR ''.'' \<notin> set b"
    from that have ext: "filepath_Ext b = []" by (rule filepath_Ext_nodot)
    then have st: "stem b = b" by (simp add: stem_def)
    have eq: "generateTimestampedFilePath t dir b = Inr (filepath_Join [dir, b @ ''_'' @ ?ts])"
      by (simp add: generateTimestampedFilePath_eq ext st)
    obtain q f where b: "b = q @ f" "CHR ''/'' \<notin> set f" "q = [] \<or> last q = CHR ''/''"
      using split_last_elem by blast
    have "CHR ''/'' \<notin> set ?ts" using Format_chars [of t] by auto
    moreover have "f @ ''_'' @ ?ts \<noteq> ''.'' \<and> f @ ''_'' @ ?ts \<noteq> ''..''"
      by (rule not_dots [of "CHR ''_''"]) simp_all
    ultimately have "plain_elem (f @ ''_'' @ ?ts)" using b(2) by (simp add: plain_elem_def)
    from Join_last_elem [OF this b(3), of dir]
    obtain x where "filepath_Join [dir, q @ f @ ''_'' @ ?ts] = x @ f @ ''_'' @ ?ts" by blast
    moreover have "b @ ''_'' @ ?ts = q @ f @ ''_'' @ ?ts" by (simp add: b(1))
    ultimately have "generateTimestampedFilePath t dir b = Inr (x @ f @ ''_'' @ ?ts)"
      by (simp only: eq)
    then have "generateTimestampedFilePath t dir b = Inr ((x @ f) @ ''_'' @ ?ts)"
      by (simp only: append_assoc)
    then have "\<exists>x. generateTimestampedFilePath t dir b = Inr (x @ ''_'' @ ?ts)" by (rule exI)
    with eq show "generateTimestampedFilePath t dir b = Inr (filepath_Join [dir, b @ ''_'' @ ?ts])
     \<and> (\<exists>x. generateTimestampedFilePath t dir b = Inr (x @ ''_'' @ ?ts))" by (rule conjI)
  qed
  show ?thesis using tot rng nodot by (intro conjI) assumption+
qed

theorem generateTimestampedFilePath_total_witness:
  "CHR ''.'' \<notin> set ''notes''
   \<and> generateTimestampedFilePath
        \<lparr>Year = 2024, Month = 3, Day = 7, Hour = 9, Minute = 5, Second = 0\<rparr>
        ''output'' ''notes'' = Inr ''output/notes_20240307_090500''
   \<and> generateTimestampedFilePath
        \<lparr>Year = 2024, Month = 3, Day = 7, Hour = 9, Minute = 5, Second = 0\<rparr>
        ''output'' [] = Inr ''output/_20240307_090500''"
proof -
  let ?t = "\<lparr>Year = 2024, Month = 3, Day = 7, Hour = 9, Minute = 5, Second = 0\<rparr>"
  have h: "CHR ''.'' \<notin> set ''notes''" "CHR ''.'' \<notin> set ([] :: string)" by simp_all
  have v: "filepath_Join [''output'', ''notes'' @ ''_'' @ Format_20060102_150405 ?t] =
           ''output/notes_20240307_090500''"
    "filepath_Join [''output'', [] @ ''_'' @ Format_20060102_150405 ?t] =
           ''output/_20240307_090500''"
    by code_simp+
  from generateTimestampedFilePath_total [of ?t "''output''" "''notes''"] h(1)
  have a: "generateTimestampedFilePath ?t ''output'' ''notes'' =
           Inr (filepath_Join [''output'', ''notes'' @ ''_'' @ Format_20060102_150405 ?t])"
    by blast
  from generateTimestampedFilePath_total [of ?t "''output''" "[]"] h(2)
  have b: "generateTimestampedFilePath ?t ''output'' [] =
           Inr (filepath_Join [''output'', [] @ ''_'' @ Format_20060102_150405 ?t])"
    by blast
  show ?thesis using h(1) by (simp only: a b v simp_thms)
qed

text \<open>
  C9. In the existing-transcription branch (no audio path, a transcription path) the
  value of \<open>-output\<close> changes neither the transcription stage nor the whole run; the
  reference path returned is the transcription path and the text is the content of that
  file; the stage neither looks for nor creates the output directory and writes no file.
  Over the whole run, post-processing included, no event looks for or creates a
  directory, and the only file that can be written is the notes file derived from the
  transcription path, when the directive asks for it: no transcription output file is
  written.
\<close>

theorem existing_transcription_ignores_output:
  "AudioFilePath config = [] \<and> TranscriptionFilePath config \<noteq> [] \<longrightarrow>
     processTranscription w (config\<lparr>OutputFileName := x\<rparr>) = processTranscription w config
     \<and> main w (config\<lparr>OutputFileName := x\<rparr>) = main w config
     \<and> (\<forall>text p. snd (processTranscription w config) = Inr (text, p) \<longrightarrow>
           p = TranscriptionFilePath config \<and> read_file w p = Inr text)
     \<and> (\<forall>e \<in> set (fst (processTranscription w config)).
           e \<noteq> Stat ''output'' \<and> e \<noteq> Mkdir ''output'' \<and> (\<forall>p c. e \<noteq> WriteFile p c))
     \<and> (\<forall>e \<in> set (fst (main w config)).
           (\<forall>p. e \<noteq> Stat p \<and> e \<noteq> Mkdir p)
           \<and> (\<forall>p c. e = WriteFile p c \<longrightarrow>
                 PostProcessCmd config = ''create_emacs_org_notes''
                 \<and> p = generateOrgFilePath (TranscriptionFilePath config)))"
proof (intro impI, elim conjE, intro conjI allI impI ballI)
  assume a: "AudioFilePath config = []" and t: "TranscriptionFilePath config \<noteq> []"
  show "processTranscription w (config\<lparr>OutputFileName := x\<rparr>) = processTranscription w config"
    using a t by (simp add: processTranscription_def)
  show "main w (config\<lparr>OutputFileName := x\<rparr>) = main w config"
  proof (cases "os_Getenv (env_after_load w) ''OPENAI_API_KEY'' = []")
    case True
    then show ?thesis by (simp add: main_no_key)
  next
    case False
    then show ?thesis using a t by (simp add: main_key processTranscription_def)
  qed
  {
    fix tx p assume "snd (processTranscription w config) = Inr (tx, p)"
    then show "p = TranscriptionFilePath config" and "read_file w p = Inr tx"
      unfolding processTranscription_existing [OF a t]
      by (auto simp: snd_bind ret_def split: sum.splits dest: readExistingTranscription_result)
  }
  {
    fix e assume "e \<in> set (fst (processTranscription w config))"
    from processTranscription_existing_events [OF a this]
    show "e \<noteq> Stat ''output''" "e \<noteq> Mkdir ''output''" "\<And>p c. e \<noteq> WriteFile p c"
      by auto
  }
  {
    fix e assume e: "e \<in> set (fst (main w config))"
    note ev = main_existing_events [OF a e]
    show "\<And>p. e \<noteq> Stat p" "\<And>p. e \<noteq> Mkdir p"
      using ev by auto
    fix p c assume "e = WriteFile p c"
    with ev show "PostProcessCmd config = ''create_emacs_org_notes''"
      and "p = generateOrgFilePath (TranscriptionFilePath config)"
      by auto
  }
qed

theorem existing_transcription_ignores_output_witness:
  "AudioFilePath flags_notes = [] \<and> TranscriptionFilePath flags_notes \<noteq> []
   \<and> main demo_world (flags_notes\<lparr>OutputFileName := ''x.txt''\<rparr>) = main demo_world flags_notes
   \<and> snd (processTranscription demo_world (flags_notes\<lparr>OutputFileName := ''x.txt''\<rparr>)) =
       Inr (''meeting notes'', ''t.txt'')
   \<and> WriteFile ''t_emacs_org_notes.org'' ''#+title: Test''
       \<in> set (fst (main notes_world flags_notes))
   \<and> ''t_emacs_org_notes.org'' = generateOrgFilePath (TranscriptionFilePath flags_notes)
   \<and> Stat ''output'' \<notin> set (fst (main notes_world flags_notes))"
proof -
  have h: "AudioFilePath flags_notes = [] \<and> TranscriptionFilePath flags_notes \<noteq> []"
    by (simp add: flags_notes_def)
  from existing_transcription_ignores_output [of flags_notes demo_world "''x.txt''"] h
  have 1: "processTranscription demo_world (flags_notes\<lparr>OutputFileName := ''x.txt''\<rparr>) =
           processTranscription demo_world flags_notes"
    and 2: "main demo_world (flags_notes\<lparr>OutputFileName := ''x.txt''\<rparr>) = main demo_world flags_notes"
    by blast+
  have 3: "snd (processTranscription demo_world flags_notes) = Inr (''meeting notes'', ''t.txt'')"
    by code_simp
  have 4: "WriteFile ''t_emacs_org_notes.org'' ''#+title: Test''
       \<in> set (fst (main notes_world flags_notes))"
    by code_simp
  from existing_transcription_ignores_output [of flags_notes notes_world "''x.txt''"] h
  have 5: "\<forall>e \<in> set (fst (main notes_world flags_notes)).
           (\<forall>p. e \<noteq> Stat p \<and> e \<noteq> Mkdir p)
           \<and> (\<forall>p c. e = WriteFile p c \<longrightarrow>
                 PostProcessCmd flags_notes = ''create_emacs_org_notes''
                 \<and> p = generateOrgFilePath (TranscriptionFilePath flags_notes))"
    by blast
  from 4 5 have 6: "''t_emacs_org_notes.org'' = generateOrgFilePath (TranscriptionFilePath flags_notes)"
    by blast
  from 5 have 7: "Stat ''output'' \<notin> set (fst (main notes_world flags_notes))"
    by blast
  from h 1 2 3 4 6 7 show ?thesis by simp
qed

text \<open>
  C10. For every transcription text the prompt is a fixed prefix of the template, then the
  text, then a fixed suffix of the template: the text is a contiguous part of the prompt,
  the surrounding template does not depend on it, and two prompts are equal exactly when
  the two texts are.
\<close>

theorem createPrompt_wraps_text:
  "createPrompt text = take 742 prompt_template @ text @ drop 744 prompt_template
   \<and> sublist text (createPrompt text)
   \<and> (createPrompt a = createPrompt b) = (a = b)"
  by (simp add: createPrompt_eq sublist_appendI)

end
